theory Spec2Isabelle
  imports Main "HOL-Library.AList"
begin

section \<open>JavaScript strings\<close>

text \<open>
  JavaScript strings are sequences of UTF-16 code units; a code unit is modelled as a
  natural number, and \<open>str\<close> embeds an ASCII literal.
\<close>

type_synonym jstring = "nat list"

definition str :: "string \<Rightarrow> jstring" where
  "str cs = map of_char cs"

text \<open>
  The code units that \<open>String.prototype.trim\<close> strips: ECMAScript WhiteSpace and
  LineTerminator (TAB, LF, VT, FF, CR, SP, NBSP, U+1680, U+2000..U+200A, U+2028, U+2029,
  U+202F, U+205F, U+3000, U+FEFF).
\<close>

definition is_whitespace :: "nat \<Rightarrow> bool" where
  "is_whitespace c \<longleftrightarrow>
     c \<in> set [9, 10, 11, 12, 13, 32, 160, 5760, 8232, 8233, 8239, 8287, 12288, 65279]
     \<or> (8192 \<le> c \<and> c \<le> 8202)"

definition trim :: "jstring \<Rightarrow> jstring" where
  "trim s = rev (dropWhile is_whitespace (rev (dropWhile is_whitespace s)))"

text \<open>A string is truthy exactly when it is not empty.\<close>

definition truthy :: "jstring \<Rightarrow> bool" where
  "truthy s \<longleftrightarrow> s \<noteq> []"

section \<open>Message store (stores/appStore.ts)\<close>

datatype role = User | Assistant

record ChatMessage =
  msg_role :: role
  msg_text :: jstring
  msg_timestamp :: nat

text \<open>
  \<open>Array.prototype.slice(-n)\<close>: the last \<open>n\<close> elements, the whole array when it
  has fewer than \<open>n\<close>.
\<close>

definition slice_last :: "nat \<Rightarrow> 'a list \<Rightarrow> 'a list" where
  "slice_last n xs = drop (length xs - n) xs"

text \<open>
  \<^verbatim>\<open>addMessage: (message) => set((state) => ({
    messages: [...state.messages.slice(-50), message], // Keep last 50
  }))\<close>
\<close>

definition addMessage :: "ChatMessage \<Rightarrow> ChatMessage list \<Rightarrow> ChatMessage list" where
  "addMessage message messages = slice_last 50 messages @ [message]"

definition clearMessages :: "ChatMessage list \<Rightarrow> ChatMessage list" where
  "clearMessages messages = []"

text \<open>A sequence of \<open>addMessage\<close> calls, oldest first, on a store.\<close>

fun addMessages :: "ChatMessage list \<Rightarrow> ChatMessage list \<Rightarrow> ChatMessage list" where
  "addMessages [] messages = messages"
| "addMessages (m # ms) messages = addMessages ms (addMessage m messages)"

section \<open>Conversation manager (services/conversation.ts)\<close>

subsection \<open>State\<close>

datatype ConversationPhase = Idle | Listening | Processing | Speaking

text \<open>
  The three callbacks the module passes to \<open>setTimeout\<close>: the one armed at the end of
  \<open>beginListening\<close> (10 s), the one armed by \<open>resetSilenceTimer\<close>, and the anonymous one
  armed at the end of \<open>onSilenceDetected\<close> (30 s).
\<close>

datatype timer_callback = NoSpeechGuard | SilenceTimeout | ResponseTimeout

record timer =
  timer_id :: nat
  timer_callback :: timer_callback
  timer_delay :: int

text \<open>
  Calls that leave the module: the three handlers registered by \<open>init\<close>, the native
  recogniser (\<open>_ctx.transcribeRealtime\<close> and the \<open>stop\<close> it returns), \<open>expo-speech\<close>,
  and \<open>Gateway.sendMessage\<close>.
\<close>

datatype effect =
    PhaseChange ConversationPhase
  | Transcript jstring bool
  | NewMessage ChatMessage
  | TranscribeRealtime
  | NativeStop
  | SpeechSpeak jstring
  | SpeechStop
  | GatewaySendMessage jstring

text \<open>
  An async function that reaches an \<open>await\<close> is suspended; the rest of its body runs
  when the awaited promise settles. A task records one suspended call:
  \<^item> \<open>AwaitStartListening e k\<close>: \<open>beginListening\<close> at \<open>await Whisper.startListening\<close>;
    \<open>e\<close> is the error \<open>startListening\<close> threw before its own first \<open>await\<close>, if any;
    \<open>k\<close> holds when the caller is the \<open>catch\<close> branch of \<open>onSilenceDetected\<close>, which
    goes on to the \<open>setTimeout\<close> of the response timer once \<open>beginListening\<close> returns;
  \<^item> \<open>AwaitListenerStop_silence\<close>: \<open>onSilenceDetected\<close> at \<open>await _activeListener.stop()\<close>;
  \<^item> \<open>AwaitListenerStop_stop\<close>: \<open>stop\<close> at \<open>await _activeListener.stop()\<close>;
  \<^item> \<open>AwaitSendMessage\<close>: \<open>onSilenceDetected\<close> at \<open>await Gateway.sendMessage(text)\<close>;
  \<^item> \<open>AwaitSpeak\<close>: \<open>handleAssistantReply\<close> at \<open>await TTS.speak\<close>.
\<close>

datatype task =
    AwaitStartListening "jstring option" bool
  | AwaitListenerStop_silence
  | AwaitListenerStop_stop
  | AwaitSendMessage
  | AwaitSpeak

datatype outcome = Fulfilled jstring | Rejected

text \<open>
  The module variables of conversation.ts, of whisper.ts (\<open>whisper_\<close>) and of tts.ts
  (\<open>tts_\<close>), and the environment: armed timers, the next timer handle, the calls made
  so far, the suspended calls. \<open>handlers\<close> holds once \<open>init\<close> has set the three
  handlers (they are set together). A timer handle is a positive number, so
  \<open>if (_silenceTimer)\<close> tests for \<open>null\<close>. \<open>whisper_fullText\<close> is the \<open>fullText\<close>
  variable of the session begun last, the only one \<open>_activeListener\<close> can refer to.
\<close>

record conv =
  phase :: ConversationPhase
  handlers :: bool
  activeListener :: "nat option"
  silenceTimer :: "nat option"
  lastPartialText :: jstring
  silenceThresholdMs :: int
  waitingForResponse :: bool
  whisper_ctx :: bool
  whisper_isRecording :: bool
  whisper_currentTranscribe :: "nat option"
  whisper_fullText :: jstring
  whisper_sessions :: nat
  tts_isSpeaking :: bool
  timers :: "timer list"
  nextTimer :: nat
  effects :: "effect list"
  tasks :: "task list"

definition conv_init :: conv where
  "conv_init = \<lparr> phase = Idle, handlers = False, activeListener = None,
     silenceTimer = None, lastPartialText = [], silenceThresholdMs = 1500,
     waitingForResponse = False, whisper_ctx = False, whisper_isRecording = False,
     whisper_currentTranscribe = None, whisper_fullText = [], whisper_sessions = 0,
     tts_isSpeaking = False, timers = [], nextTimer = 1, effects = [], tasks = [] \<rparr>"

subsection \<open>Environment: handlers, timers, suspended calls\<close>

definition notify :: "effect \<Rightarrow> conv \<Rightarrow> conv" where
  "notify e s = (if handlers s then s\<lparr>effects := effects s @ [e]\<rparr> else s)"

definition call :: "effect \<Rightarrow> conv \<Rightarrow> conv" where
  "call e s = s\<lparr>effects := effects s @ [e]\<rparr>"

definition suspend :: "task \<Rightarrow> conv \<Rightarrow> conv" where
  "suspend t s = s\<lparr>tasks := tasks s @ [t]\<rparr>"

text \<open>\<open>setTimeout\<close> returns the handle \<open>nextTimer s\<close>.\<close>

definition setTimeout :: "timer_callback \<Rightarrow> int \<Rightarrow> conv \<Rightarrow> conv" where
  "setTimeout cb ms s =
     s\<lparr>timers := timers s @ [\<lparr>timer_id = nextTimer s, timer_callback = cb, timer_delay = ms\<rparr>],
       nextTimer := Suc (nextTimer s)\<rparr>"

definition clearTimeout :: "nat \<Rightarrow> conv \<Rightarrow> conv" where
  "clearTimeout i s = s\<lparr>timers := filter (\<lambda>t. timer_id t \<noteq> i) (timers s)\<rparr>"

subsection \<open>whisper.ts and tts.ts\<close>

text \<open>
  \<open>startListening\<close> up to its \<open>await _ctx.transcribeRealtime\<close>: the two \<open>throw\<close>s (which
  reject the promise it returns) and, past them, \<open>_isRecording = true\<close> and the native call.
\<close>

definition startListening_throws :: "conv \<Rightarrow> jstring option" where
  "startListening_throws s =
     (if \<not> whisper_ctx s then Some (str ''Whisper not initialized'')
      else if whisper_isRecording s then Some (str ''Already recording'')
      else None)"

definition startListening_call :: "conv \<Rightarrow> conv" where
  "startListening_call s =
     (if startListening_throws s \<noteq> None then s
      else call TranscribeRealtime (s\<lparr>whisper_isRecording := True\<rparr>))"

text \<open>
  The rest of \<open>startListening\<close>, once \<open>transcribeRealtime\<close> has resolved: a new session with
  its own empty \<open>fullText\<close>; the handle returned is the session's number.
\<close>

definition startListening_resume :: "conv \<Rightarrow> conv" where
  "startListening_resume s =
     s\<lparr>whisper_fullText := [], whisper_sessions := Suc (whisper_sessions s),
       whisper_currentTranscribe := Some (Suc (whisper_sessions s))\<rparr>"

text \<open>The handle's \<open>stop\<close> up to \<open>await stop()\<close>, and the text of the result it returns
  (\<open>fullText || result?.data?.result || ''\<close>, \<open>native\<close> being \<open>result?.data?.result\<close> or the
  empty string).\<close>

definition listener_stop_call :: "conv \<Rightarrow> conv" where
  "listener_stop_call s =
     call NativeStop (s\<lparr>whisper_isRecording := False, whisper_currentTranscribe := None\<rparr>)"

definition listener_stop_text :: "jstring \<Rightarrow> conv \<Rightarrow> jstring" where
  "listener_stop_text native s =
     (if truthy (whisper_fullText s) then whisper_fullText s else native)"

text \<open>\<open>TTS.speak\<close> up to the call of \<open>Speech.speak\<close>, and \<open>TTS.stopSpeaking\<close>.\<close>

definition speak_call :: "jstring \<Rightarrow> conv \<Rightarrow> conv" where
  "speak_call txt s =
     call (SpeechSpeak txt)
       ((if tts_isSpeaking s then call SpeechStop s else s)\<lparr>tts_isSpeaking := True\<rparr>)"

definition stopSpeaking :: "conv \<Rightarrow> conv" where
  "stopSpeaking s =
     (if tts_isSpeaking s then (call SpeechStop s)\<lparr>tts_isSpeaking := False\<rparr> else s)"

subsection \<open>conversation.ts\<close>

definition setPhase :: "ConversationPhase \<Rightarrow> conv \<Rightarrow> conv" where
  "setPhase p s = (if phase s = p then s else notify (PhaseChange p) (s\<lparr>phase := p\<rparr>))"

definition init :: "conv \<Rightarrow> conv" where
  "init s = s\<lparr>handlers := True\<rparr>"

definition setSilenceThreshold :: "int \<Rightarrow> conv \<Rightarrow> conv" where
  "setSilenceThreshold ms s = s\<lparr>silenceThresholdMs := max 500 (min 5000 ms)\<rparr>"

definition clearSilenceTimer :: "conv \<Rightarrow> conv" where
  "clearSilenceTimer s =
     (case silenceTimer s of
        None \<Rightarrow> s
      | Some i \<Rightarrow> (clearTimeout i s)\<lparr>silenceTimer := None\<rparr>)"

definition resetSilenceTimer :: "conv \<Rightarrow> conv" where
  "resetSilenceTimer s =
     (let s1 = clearSilenceTimer s in
      if truthy (trim (lastPartialText s1))
      then (setTimeout SilenceTimeout (silenceThresholdMs s1) s1)\<lparr>silenceTimer := Some (nextTimer s1)\<rparr>
      else s1)"

text \<open>\<open>beginListening\<close> up to \<open>await Whisper.startListening\<close>.\<close>

definition beginListening_call :: "bool \<Rightarrow> conv \<Rightarrow> conv" where
  "beginListening_call k s =
     (let s1 = (setPhase Listening s)\<lparr>lastPartialText := []\<rparr> in
      suspend (AwaitStartListening (startListening_throws s1) k) (startListening_call s1))"

text \<open>
  The rest of \<open>beginListening\<close>: \<open>thrown\<close> is what \<open>startListening\<close> threw, \<open>ok\<close> whether
  \<open>transcribeRealtime\<close> resolved. On success the handle is stored and the 10 s timer is
  armed; on failure the \<open>catch\<close> sets the phase to idle. With \<open>k\<close>, the caller then arms
  the response timer.
\<close>

definition armResponseTimer :: "conv \<Rightarrow> conv" where
  "armResponseTimer s = setTimeout ResponseTimeout 30000 s"

definition beginListening_resume :: "jstring option \<Rightarrow> bool \<Rightarrow> bool \<Rightarrow> conv \<Rightarrow> conv" where
  "beginListening_resume thrown k ok s =
     (let s1 =
        (if thrown = None \<and> ok
         then (let s2 = startListening_resume s;
                   s3 = s2\<lparr>activeListener := whisper_currentTranscribe s2\<rparr>
               in (setTimeout NoSpeechGuard 10000 s3)\<lparr>silenceTimer := Some (nextTimer s3)\<rparr>)
         else setPhase Idle s)
      in if k then armResponseTimer s1 else s1)"

text \<open>The callback of the 10 s timer.\<close>

definition noSpeechGuard :: "conv \<Rightarrow> conv" where
  "noSpeechGuard s =
     (if phase s = Listening \<and> \<not> truthy (trim (lastPartialText s))
      then resetSilenceTimer s else s)"

text \<open>\<open>onSilenceDetected\<close>, in its three parts.\<close>

definition onSilenceDetected_call :: "conv \<Rightarrow> conv" where
  "onSilenceDetected_call s =
     (if phase s \<noteq> Listening \<or> activeListener s = None then s
      else suspend AwaitListenerStop_silence (listener_stop_call s))"

definition onSilenceDetected_afterStop :: "jstring \<Rightarrow> nat \<Rightarrow> conv \<Rightarrow> conv" where
  "onSilenceDetected_afterStop native now s =
     (let txt = trim (listener_stop_text native s);
          s1 = s\<lparr>activeListener := None\<rparr>
      in if \<not> truthy txt then beginListening_call False s1
         else
           (let s2 = notify (Transcript txt True) s1;
                s3 = notify (NewMessage \<lparr>msg_role = User, msg_text = txt, msg_timestamp = now\<rparr>) s2;
                s4 = (setPhase Processing s3)\<lparr>waitingForResponse := True\<rparr>
            in suspend AwaitSendMessage (call (GatewaySendMessage txt) s4)))"

definition onSilenceDetected_afterSend :: "bool \<Rightarrow> conv \<Rightarrow> conv" where
  "onSilenceDetected_afterSend ok s =
     (if ok then armResponseTimer s
      else beginListening_call True (s\<lparr>waitingForResponse := False\<rparr>))"

text \<open>The callback of the 30 s timer.\<close>

definition responseTimeout :: "conv \<Rightarrow> conv" where
  "responseTimeout s =
     (if waitingForResponse s \<and> phase s = Processing
      then beginListening_call False (s\<lparr>waitingForResponse := False\<rparr>)
      else s)"

text \<open>\<open>handleAssistantReply\<close>: up to \<open>await TTS.speak\<close>, and after it (the promise
  settles from a callback of \<open>Speech.speak\<close> that has set \<open>_isSpeaking = false\<close>; the
  \<open>catch\<close> only logs, so both outcomes continue alike).\<close>

definition handleAssistantReply_call :: "jstring \<Rightarrow> nat \<Rightarrow> conv \<Rightarrow> conv" where
  "handleAssistantReply_call txt now s =
     (let s1 = notify (NewMessage \<lparr>msg_role = Assistant, msg_text = txt, msg_timestamp = now\<rparr>) s;
          s2 = setPhase Speaking s1
      in suspend AwaitSpeak (speak_call txt s2))"

definition handleAssistantReply_afterSpeak :: "conv \<Rightarrow> conv" where
  "handleAssistantReply_afterSpeak s =
     (let s1 = s\<lparr>tts_isSpeaking := False\<rparr> in
      if phase s1 = Speaking then beginListening_call False s1 else s1)"

text \<open>The handler \<open>init\<close> registers with \<open>Gateway.onMessage\<close>.\<close>

definition onMessage :: "jstring \<Rightarrow> nat \<Rightarrow> conv \<Rightarrow> conv" where
  "onMessage txt now s =
     (if waitingForResponse s
      then handleAssistantReply_call txt now (s\<lparr>waitingForResponse := False\<rparr>)
      else s)"

text \<open>The \<open>onPartialResult\<close> callback \<open>beginListening\<close> passes to \<open>startListening\<close>, and the
  subscriber of whisper.ts that calls it.\<close>

definition onPartialResult :: "jstring \<Rightarrow> conv \<Rightarrow> conv" where
  "onPartialResult txt s =
     resetSilenceTimer (notify (Transcript txt False) (s\<lparr>lastPartialText := txt\<rparr>))"

definition whisper_event :: "bool \<Rightarrow> jstring \<Rightarrow> conv \<Rightarrow> conv" where
  "whisper_event isCapturing result s =
     (if isCapturing \<and> truthy result
      then onPartialResult result (s\<lparr>whisper_fullText := result\<rparr>)
      else s)"

definition start :: "conv \<Rightarrow> conv" where
  "start s = (if phase s \<noteq> Idle then s else beginListening_call False s)"

text \<open>\<open>stop\<close>: up to \<open>await _activeListener.stop()\<close> (or to its end when there is no
  listener), and after it.\<close>

definition stop_call :: "conv \<Rightarrow> conv" where
  "stop_call s =
     (let s1 = (stopSpeaking (clearSilenceTimer s))\<lparr>waitingForResponse := False\<rparr> in
      if activeListener s1 \<noteq> None
      then suspend AwaitListenerStop_stop (listener_stop_call s1)
      else setPhase Idle s1)"

definition stop_afterStop :: "conv \<Rightarrow> conv" where
  "stop_afterStop s = setPhase Idle (s\<lparr>activeListener := None\<rparr>)"

definition interrupt :: "conv \<Rightarrow> conv" where
  "interrupt s =
     (if phase s = Speaking then beginListening_call False (stopSpeaking s) else s)"

subsection \<open>Events\<close>

text \<open>A timer fires: it leaves the armed timers and its callback runs.\<close>

definition fire :: "nat \<Rightarrow> conv \<Rightarrow> conv" where
  "fire i s =
     (case find (\<lambda>t. timer_id t = i) (timers s) of
        None \<Rightarrow> s
      | Some t \<Rightarrow>
          (let s1 = clearTimeout i s in
           case timer_callback t of
             NoSpeechGuard \<Rightarrow> noSpeechGuard s1
           | SilenceTimeout \<Rightarrow> onSilenceDetected_call s1
           | ResponseTimeout \<Rightarrow> responseTimeout s1))"

text \<open>The promise a suspended call awaits settles: the call leaves the suspended calls
  and its remaining part runs. A rejected \<open>stop()\<close> of the recogniser rejects the caller
  with nothing more done.\<close>

definition resume :: "task \<Rightarrow> outcome \<Rightarrow> nat \<Rightarrow> conv \<Rightarrow> conv" where
  "resume t out now s =
     (case t of
        AwaitStartListening thrown k \<Rightarrow> beginListening_resume thrown k (out \<noteq> Rejected) s
      | AwaitListenerStop_silence \<Rightarrow>
          (case out of Fulfilled native \<Rightarrow> onSilenceDetected_afterStop native now s | Rejected \<Rightarrow> s)
      | AwaitListenerStop_stop \<Rightarrow>
          (case out of Fulfilled native \<Rightarrow> stop_afterStop s | Rejected \<Rightarrow> s)
      | AwaitSendMessage \<Rightarrow> onSilenceDetected_afterSend (out \<noteq> Rejected) s
      | AwaitSpeak \<Rightarrow> handleAssistantReply_afterSpeak s)"

datatype event =
    WhisperReady
  | Init
  | Start
  | Stop
  | Interrupt
  | SetSilenceThreshold int
  | TimerFires nat
  | WhisperEvent bool jstring
  | GatewayMessage jstring nat
  | Settles nat outcome nat

definition step :: "event \<Rightarrow> conv \<Rightarrow> conv" where
  "step e s =
     (case e of
        WhisperReady \<Rightarrow> s\<lparr>whisper_ctx := True\<rparr>
      | Init \<Rightarrow> init s
      | Start \<Rightarrow> start s
      | Stop \<Rightarrow> stop_call s
      | Interrupt \<Rightarrow> interrupt s
      | SetSilenceThreshold ms \<Rightarrow> setSilenceThreshold ms s
      | TimerFires i \<Rightarrow> fire i s
      | WhisperEvent c r \<Rightarrow> whisper_event c r s
      | GatewayMessage txt now \<Rightarrow> (if handlers s then onMessage txt now s else s)
      | Settles n out now \<Rightarrow>
          (if n < length (tasks s)
           then resume (tasks s ! n) out now (s\<lparr>tasks := take n (tasks s) @ drop (Suc n) (tasks s)\<rparr>)
           else s))"

fun run :: "event list \<Rightarrow> conv \<Rightarrow> conv" where
  "run [] s = s"
| "run (e # es) s = run es (step e s)"

section \<open>Gateway client (services/gateway.ts)\<close>

subsection \<open>Frames and payloads\<close>

text \<open>
  A payload is whatever \<open>JSON.parse\<close> produced (the code reads it \<open>as any\<close>). Numbers
  are only tested for truth, so integers stand for them. An object is the list of its
  properties, each key once.
\<close>

datatype json =
    JUndefined
  | JNull
  | JBool bool
  | JNumber int
  | JString jstring
  | JArray "json list"
  | JObject "(jstring \<times> json) list"

fun truthy_json :: "json \<Rightarrow> bool" where
  "truthy_json JUndefined = False"
| "truthy_json JNull = False"
| "truthy_json (JBool b) = b"
| "truthy_json (JNumber n) = (n \<noteq> 0)"
| "truthy_json (JString s) = (s \<noteq> [])"
| "truthy_json (JArray xs) = True"
| "truthy_json (JObject kvs) = True"

text \<open>\<open>v?.k\<close> for the property names the client reads: \<open>undefined\<close> unless \<open>v\<close> is an
  object that has the property.\<close>

fun field :: "string \<Rightarrow> json \<Rightarrow> json" where
  "field k (JObject kvs) = (case map_of kvs (str k) of Some v \<Rightarrow> v | None \<Rightarrow> JUndefined)"
| "field k v = JUndefined"

record GatewayConfig =
  url :: jstring
  token :: jstring

record GatewayRequest =
  req_id :: jstring
  req_method :: jstring
  req_params :: json

text \<open>
  What \<open>handleFrame\<close> distinguishes in a parsed frame: a response (\<open>id\<close>, \<open>ok\<close>, \<open>payload\<close>,
  \<open>error?.message\<close>), an event (\<open>event\<close>, \<open>payload\<close>), anything else.
\<close>

datatype GatewayFrame =
    Res jstring bool json "jstring option"
  | Event jstring json
  | OtherFrame

datatype ConnectionState = Disconnected | Connecting | Connected | Error

datatype readyState = CONNECTING | OPEN | CLOSING | CLOSED

record socket =
  sock_id :: nat
  sock_url :: jstring
  sock_readyState :: readyState

subsection \<open>State\<close>

text \<open>
  The callbacks the module passes to \<open>setTimeout\<close> and \<open>setInterval\<close>: the request
  timeout of \<open>send\<close> (it closes over the frame's id and method and over the promise's
  \<open>reject\<close>), the one of \<open>scheduleReconnect\<close>, and the keepalive of \<open>doConnect\<close>.
\<close>

datatype gw_callback = RequestTimeout jstring jstring nat | Reconnect | Tick

record gw_timer =
  gt_id :: nat
  gt_callback :: gw_callback
  gt_delay :: json
  gt_repeat :: bool

text \<open>
  Calls that leave the module: the two registered handlers, the socket, and the
  \<open>resolve\<close> and \<open>reject\<close> of the promises \<open>send\<close> returns (a promise is named by a
  number).
\<close>

datatype gw_effect =
    MessageHandler json json
  | StateChange ConnectionState
  | WsNew nat jstring
  | WsSend nat GatewayRequest
  | WsClose nat
  | Resolve nat json
  | Reject nat jstring

text \<open>\<open>doConnect\<close> suspended at its first \<open>await send\<close> (the connect request) or at its
  second (the subscribe request), with the promise awaited.\<close>

datatype gw_task = AwaitConnect nat | AwaitSubscribe nat

text \<open>
  The module variables of gateway.ts (\<open>_pendingRequests\<close> maps a request id to the
  promise registered under it, in insertion order) and the environment: armed timers,
  the next timer handle, promise and socket numbers, the calls made so far, the suspended
  calls. \<open>_ws\<close> is the socket object with its current \<open>readyState\<close>.
\<close>

record gw =
  ws :: "socket option"
  config :: "GatewayConfig option"
  reqId :: nat
  pendingRequests :: "(jstring \<times> nat) list"
  onMessageHandler :: bool
  onStateChangeHandler :: bool
  reconnectTimer :: "nat option"
  tickTimer :: "nat option"
  isConnected :: bool
  gw_timers :: "gw_timer list"
  gw_nextTimer :: nat
  gw_nextPromise :: nat
  gw_nextSocket :: nat
  gw_effects :: "gw_effect list"
  gw_tasks :: "gw_task list"

definition gw_init :: gw where
  "gw_init = \<lparr> ws = None, config = None, reqId = 0, pendingRequests = [],
     onMessageHandler = False, onStateChangeHandler = False, reconnectTimer = None,
     tickTimer = None, isConnected = False, gw_timers = [], gw_nextTimer = 1,
     gw_nextPromise = 0, gw_nextSocket = 0, gw_effects = [], gw_tasks = [] \<rparr>"

subsection \<open>Environment\<close>

definition gw_call :: "gw_effect \<Rightarrow> gw \<Rightarrow> gw" where
  "gw_call e s = s\<lparr>gw_effects := gw_effects s @ [e]\<rparr>"

text \<open>\<open>_onMessage?.(text, messageId)\<close> and \<open>_onStateChange?.(state)\<close>.\<close>

definition callOnMessage :: "json \<Rightarrow> json \<Rightarrow> gw \<Rightarrow> gw" where
  "callOnMessage txt messageId s =
     (if onMessageHandler s then gw_call (MessageHandler txt messageId) s else s)"

definition callOnStateChange :: "ConnectionState \<Rightarrow> gw \<Rightarrow> gw" where
  "callOnStateChange st s =
     (if onStateChangeHandler s then gw_call (StateChange st) s else s)"

text \<open>\<open>setTimeout\<close> and \<open>setInterval\<close> return the handle \<open>gw_nextTimer s\<close>.\<close>

definition gw_setTimer :: "bool \<Rightarrow> gw_callback \<Rightarrow> json \<Rightarrow> gw \<Rightarrow> gw" where
  "gw_setTimer rep cb ms s =
     s\<lparr>gw_timers := gw_timers s @
          [\<lparr>gt_id = gw_nextTimer s, gt_callback = cb, gt_delay = ms, gt_repeat = rep\<rparr>],
       gw_nextTimer := Suc (gw_nextTimer s)\<rparr>"

definition gw_clearTimer :: "nat \<Rightarrow> gw \<Rightarrow> gw" where
  "gw_clearTimer i s = s\<lparr>gw_timers := filter (\<lambda>t. gt_id t \<noteq> i) (gw_timers s)\<rparr>"

definition gw_suspend :: "gw_task \<Rightarrow> gw \<Rightarrow> gw" where
  "gw_suspend t s = s\<lparr>gw_tasks := gw_tasks s @ [t]\<rparr>"

subsection \<open>gateway.ts\<close>

text \<open>The decimal digits of a number, as the template literal of \<open>nextId\<close> prints it.\<close>

function decimal :: "nat \<Rightarrow> jstring" where
  "decimal n = (if n < 10 then [48 + n] else decimal (n div 10) @ [48 + n mod 10])"
  by pat_completeness auto
termination
  by (relation "measure id") auto

declare decimal.simps [simp del]

text \<open>\<open>nextId\<close> increments \<open>_reqId\<close> and returns the id made from the new value.\<close>

definition nextId :: "gw \<Rightarrow> jstring \<times> gw" where
  "nextId s = (str ''rn-'' @ decimal (Suc (reqId s)), s\<lparr>reqId := Suc (reqId s)\<rparr>)"

text \<open>
  \<open>send\<close> creates the promise \<open>gw_nextPromise s\<close> and runs its executor: reject at once
  when there is no open socket; otherwise register, transmit, arm the 30 s timeout.
\<close>

definition send :: "GatewayRequest \<Rightarrow> gw \<Rightarrow> gw" where
  "send frame s =
     (let p = gw_nextPromise s;
          s1 = s\<lparr>gw_nextPromise := Suc p\<rparr>
      in case ws s1 of
           None \<Rightarrow> gw_call (Reject p (str ''WebSocket not connected'')) s1
         | Some w \<Rightarrow>
             (if sock_readyState w \<noteq> OPEN
              then gw_call (Reject p (str ''WebSocket not connected'')) s1
              else
                (let s2 = s1\<lparr>pendingRequests := AList.update (req_id frame) p (pendingRequests s1)\<rparr>;
                     s3 = gw_call (WsSend (sock_id w) frame) s2
                 in gw_setTimer False (RequestTimeout (req_id frame) (req_method frame) p)
                      (JNumber 30000) s3)))"

text \<open>The callback of the 30 s timeout.\<close>

definition requestTimeout :: "jstring \<Rightarrow> jstring \<Rightarrow> nat \<Rightarrow> gw \<Rightarrow> gw" where
  "requestTimeout rid method p s =
     (if map_of (pendingRequests s) rid \<noteq> None
      then gw_call (Reject p (str ''Request '' @ method @ str '' timed out''))
             (s\<lparr>pendingRequests := AList.delete rid (pendingRequests s)\<rparr>)
      else s)"

text \<open>\<open>doConnect\<close> up to its first \<open>await\<close>. The promise awaited is the one \<open>send\<close>
  creates.\<close>

definition connect_params :: "GatewayConfig \<Rightarrow> json \<Rightarrow> json" where
  "connect_params c nonce = JObject (
     [(str ''minProtocol'', JNumber 3),
      (str ''maxProtocol'', JNumber 3),
      (str ''client'', JObject
         [(str ''id'', JString (str ''openclaw-voice-android'')),
          (str ''version'', JString (str ''0.1.0'')),
          (str ''platform'', JString (str ''android'')),
          (str ''mode'', JString (str ''operator''))]),
      (str ''role'', JString (str ''operator'')),
      (str ''scopes'', JArray [JString (str ''operator.read''), JString (str ''operator.write'')]),
      (str ''caps'', JArray []),
      (str ''commands'', JArray []),
      (str ''permissions'', JObject []),
      (str ''auth'', JObject [(str ''token'', JString (token c))]),
      (str ''locale'', JString (str ''en-US'')),
      (str ''userAgent'', JString (str ''openclaw-voice/0.1.0''))]
     @ (if truthy_json nonce then [(str ''device'', JObject [(str ''nonce'', nonce)])] else []))"

definition doConnect_call :: "json \<Rightarrow> gw \<Rightarrow> gw" where
  "doConnect_call nonce s =
     (case config s of
        None \<Rightarrow> s
      | Some c \<Rightarrow>
          (let (rid, s1) = nextId s;
               p = gw_nextPromise s1
           in gw_suspend (AwaitConnect p)
                (send \<lparr>req_id = rid, req_method = str ''connect'',
                       req_params = connect_params c nonce\<rparr> s1)))"

text \<open>The keepalive callback (\<open>_ws?.readyState === WebSocket.OPEN\<close>).\<close>

definition tick :: "gw \<Rightarrow> gw" where
  "tick s =
     (case ws s of
        None \<Rightarrow> s
      | Some w \<Rightarrow>
          (if sock_readyState w = OPEN
           then (let (rid, s1) = nextId s
                 in send \<lparr>req_id = rid, req_method = str ''tick'', req_params = JObject []\<rparr> s1)
           else s))"

text \<open>\<open>doConnect\<close> after the connect request has resolved with \<open>payload\<close>, up to the second
  \<open>await\<close>; and its \<open>catch\<close>, reached when either request is rejected.\<close>

definition tickInterval :: "json \<Rightarrow> json" where
  "tickInterval payload =
     (let v = field ''tickIntervalMs'' (field ''policy'' payload)
      in if truthy_json v then v else JNumber 15000)"

definition doConnect_connected :: "json \<Rightarrow> gw \<Rightarrow> gw" where
  "doConnect_connected payload s =
     (let s1 = callOnStateChange Connected (s\<lparr>isConnected := True\<rparr>);
          s2 = (case tickTimer s1 of None \<Rightarrow> s1 | Some i \<Rightarrow> gw_clearTimer i s1);
          s3 = (gw_setTimer True Tick (tickInterval payload) s2)\<lparr>tickTimer := Some (gw_nextTimer s2)\<rparr>;
          (rid, s4) = nextId s3;
          p = gw_nextPromise s4
      in gw_suspend (AwaitSubscribe p)
           (send \<lparr>req_id = rid, req_method = str ''chat.subscribe'',
                  req_params = JObject [(str ''session'', JString (str ''main''))]\<rparr> s4))"

definition doConnect_failed :: "gw \<Rightarrow> gw" where
  "doConnect_failed s = callOnStateChange Error s"

definition handleEvent :: "jstring \<Rightarrow> json \<Rightarrow> gw \<Rightarrow> gw" where
  "handleEvent event payload s =
     (if event = str ''connect.challenge'' then doConnect_call (field ''nonce'' payload) s
      else if event = str ''chat'' then
        (let s1 = (if field ''role'' payload = JString (str ''assistant'')
                      \<and> truthy_json (field ''text'' payload)
                   then callOnMessage (field ''text'' payload) (field ''messageId'' payload) s
                   else s)
         in if field ''type'' payload = JString (str ''message'')
               \<and> field ''role'' payload = JString (str ''assistant'')
            then callOnMessage (field ''text'' payload) (field ''messageId'' payload) s1
            else s1)
      else if event = str ''chat.reply'' then
        (if truthy_json (field ''text'' payload)
         then callOnMessage (field ''text'' payload) (field ''messageId'' payload) s
         else s)
      else if event = str ''chat.stream'' then s
      else s)"

text \<open>\<open>handleFrame\<close> on the result of \<open>JSON.parse\<close>; \<open>None\<close> when it threw.\<close>

definition error_message :: "jstring option \<Rightarrow> jstring" where
  "error_message m = (case m of Some t \<Rightarrow> (if truthy t then t else str ''Unknown error'')
                               | None \<Rightarrow> str ''Unknown error'')"

definition handleFrame :: "GatewayFrame option \<Rightarrow> gw \<Rightarrow> gw" where
  "handleFrame parsed s =
     (case parsed of
        None \<Rightarrow> s
      | Some (Res rid ok payload err) \<Rightarrow>
          (case map_of (pendingRequests s) rid of
             Some p \<Rightarrow>
               (let s1 = s\<lparr>pendingRequests := AList.delete rid (pendingRequests s)\<rparr>
                in if ok then gw_call (Resolve p payload) s1
                   else gw_call (Reject p (error_message err)) s1)
           | None \<Rightarrow> s)
      | Some (Event event payload) \<Rightarrow> handleEvent event payload s
      | Some OtherFrame \<Rightarrow> s)"

definition scheduleReconnect :: "gw \<Rightarrow> gw" where
  "scheduleReconnect s =
     (if reconnectTimer s \<noteq> None then s
      else (gw_setTimer False Reconnect (JNumber 5000) s)\<lparr>reconnectTimer := Some (gw_nextTimer s)\<rparr>)"

definition connect :: "GatewayConfig \<Rightarrow> gw \<Rightarrow> gw" where
  "connect c s =
     (let s1 = callOnStateChange Connecting (s\<lparr>config := Some c, isConnected := False\<rparr>);
          s2 = (case ws s1 of None \<Rightarrow> s1
                | Some w \<Rightarrow> (gw_call (WsClose (sock_id w)) s1)\<lparr>ws := None\<rparr>);
          n = gw_nextSocket s2
      in (gw_call (WsNew n (url c)) s2)
           \<lparr>ws := Some \<lparr>sock_id = n, sock_url = url c, sock_readyState = CONNECTING\<rparr>,
             gw_nextSocket := Suc n\<rparr>)"

text \<open>The callback of the reconnection timer.\<close>

definition reconnect :: "gw \<Rightarrow> gw" where
  "reconnect s =
     (let s1 = s\<lparr>reconnectTimer := None\<rparr>
      in case config s1 of
           Some c \<Rightarrow> (if \<not> isConnected s1 then connect c s1 else s1)
         | None \<Rightarrow> s1)"

text \<open>
  The handlers \<open>connect\<close> installs on the socket it creates. The socket object has
  changed its \<open>readyState\<close> by the time \<open>onopen\<close> or \<open>onclose\<close> runs; the module sees
  that only while \<open>_ws\<close> still is this socket.
\<close>

definition set_readyState :: "nat \<Rightarrow> readyState \<Rightarrow> gw \<Rightarrow> gw" where
  "set_readyState n r s =
     (case ws s of
        None \<Rightarrow> s
      | Some w \<Rightarrow> (if sock_id w = n then s\<lparr>ws := Some (w\<lparr>sock_readyState := r\<rparr>)\<rparr> else s))"

definition ws_onopen :: "nat \<Rightarrow> gw \<Rightarrow> gw" where
  "ws_onopen n s = set_readyState n OPEN s"

definition ws_onmessage :: "nat \<Rightarrow> GatewayFrame option \<Rightarrow> gw \<Rightarrow> gw" where
  "ws_onmessage n parsed s = handleFrame parsed s"

definition ws_onerror :: "nat \<Rightarrow> gw \<Rightarrow> gw" where
  "ws_onerror n s = callOnStateChange Error s"

definition ws_onclose :: "nat \<Rightarrow> gw \<Rightarrow> gw" where
  "ws_onclose n s =
     (let s1 = (set_readyState n CLOSED s)\<lparr>isConnected := False\<rparr>;
          s2 = (case tickTimer s1 of None \<Rightarrow> s1
                | Some i \<Rightarrow> (gw_clearTimer i s1)\<lparr>tickTimer := None\<rparr>)
      in scheduleReconnect (callOnStateChange Disconnected s2))"

definition disconnect :: "gw \<Rightarrow> gw" where
  "disconnect s =
     (let s1 = s\<lparr>config := None, isConnected := False\<rparr>;
          s2 = (case reconnectTimer s1 of None \<Rightarrow> s1
                | Some i \<Rightarrow> (gw_clearTimer i s1)\<lparr>reconnectTimer := None\<rparr>);
          s3 = (case tickTimer s2 of None \<Rightarrow> s2
                | Some i \<Rightarrow> (gw_clearTimer i s2)\<lparr>tickTimer := None\<rparr>);
          s4 = (case ws s3 of None \<Rightarrow> s3
                | Some w \<Rightarrow> (gw_call (WsClose (sock_id w)) s3)\<lparr>ws := None\<rparr>)
      in s4\<lparr>pendingRequests := []\<rparr>)"

definition sendMessage :: "jstring \<Rightarrow> gw \<Rightarrow> gw" where
  "sendMessage txt s =
     (let (rid, s1) = nextId s
      in send \<lparr>req_id = rid, req_method = str ''chat.send'',
                req_params = JObject [(str ''session'', JString (str ''main'')),
                                      (str ''text'', JString txt)]\<rparr> s1)"

definition onMessage_register :: "gw \<Rightarrow> gw" where
  "onMessage_register s = s\<lparr>onMessageHandler := True\<rparr>"

definition onStateChange_register :: "gw \<Rightarrow> gw" where
  "onStateChange_register s = s\<lparr>onStateChangeHandler := True\<rparr>"

subsection \<open>Events\<close>

text \<open>A timer fires: a timeout leaves the armed timers, an interval stays; the callback
  runs.\<close>

definition gw_fire :: "nat \<Rightarrow> gw \<Rightarrow> gw" where
  "gw_fire i s =
     (case find (\<lambda>t. gt_id t = i) (gw_timers s) of
        None \<Rightarrow> s
      | Some t \<Rightarrow>
          (let s1 = (if gt_repeat t then s else gw_clearTimer i s) in
           case gt_callback t of
             RequestTimeout rid method p \<Rightarrow> requestTimeout rid method p s1
           | Reconnect \<Rightarrow> reconnect s1
           | Tick \<Rightarrow> tick s1))"

text \<open>
  How a promise has been settled, read off the calls made: the first \<open>resolve\<close> or
  \<open>reject\<close> of the promise decides (\<open>Some (Some v)\<close>: fulfilled with \<open>v\<close>;
  \<open>Some None\<close>: rejected; \<open>None\<close>: still pending).
\<close>

fun settled :: "nat \<Rightarrow> gw_effect list \<Rightarrow> json option option" where
  "settled p [] = None"
| "settled p (Resolve q v # es) = (if q = p then Some (Some v) else settled p es)"
| "settled p (Reject q m # es) = (if q = p then Some None else settled p es)"
| "settled p (e # es) = settled p es"

text \<open>A suspended \<open>doConnect\<close> goes on once the promise it awaits has settled: after the
  connect request with the rest of the \<open>try\<close> block, after the subscribe request with
  nothing; on a rejection with the \<open>catch\<close>.\<close>

definition awaited :: "gw_task \<Rightarrow> nat" where
  "awaited t = (case t of AwaitConnect p \<Rightarrow> p | AwaitSubscribe p \<Rightarrow> p)"

definition gw_resume :: "gw_task \<Rightarrow> json option \<Rightarrow> gw \<Rightarrow> gw" where
  "gw_resume t out s =
     (case out of
        None \<Rightarrow> doConnect_failed s
      | Some payload \<Rightarrow>
          (case t of AwaitConnect p \<Rightarrow> doConnect_connected payload s
                   | AwaitSubscribe p \<Rightarrow> s))"

definition continue :: "nat \<Rightarrow> gw \<Rightarrow> gw" where
  "continue n s =
     (if n < length (gw_tasks s)
      then (case settled (awaited (gw_tasks s ! n)) (gw_effects s) of
              None \<Rightarrow> s
            | Some out \<Rightarrow>
                gw_resume (gw_tasks s ! n) out
                  (s\<lparr>gw_tasks := take n (gw_tasks s) @ drop (Suc n) (gw_tasks s)\<rparr>))
      else s)"

datatype gw_event =
    OnMessage
  | OnStateChange
  | Connect GatewayConfig
  | Disconnect
  | SendMessage jstring
  | WsOpen nat
  | WsMessage nat "GatewayFrame option"
  | WsError nat
  | WsClosed nat
  | GwTimerFires nat
  | Continue nat

definition gw_step :: "gw_event \<Rightarrow> gw \<Rightarrow> gw" where
  "gw_step e s =
     (case e of
        OnMessage \<Rightarrow> onMessage_register s
      | OnStateChange \<Rightarrow> onStateChange_register s
      | Connect c \<Rightarrow> connect c s
      | Disconnect \<Rightarrow> disconnect s
      | SendMessage txt \<Rightarrow> sendMessage txt s
      | WsOpen n \<Rightarrow> ws_onopen n s
      | WsMessage n parsed \<Rightarrow> ws_onmessage n parsed s
      | WsError n \<Rightarrow> ws_onerror n s
      | WsClosed n \<Rightarrow> ws_onclose n s
      | GwTimerFires i \<Rightarrow> gw_fire i s
      | Continue n \<Rightarrow> continue n s)"

fun gw_run :: "gw_event list \<Rightarrow> gw \<Rightarrow> gw" where
  "gw_run [] s = s"
| "gw_run (e # es) s = gw_run es (gw_step e s)"

section \<open>Histories used as examples\<close>

text \<open>
  A conversation, event by event: the recogniser is ready, \<open>init\<close>, \<open>start\<close>, the capture
  session starts (the 10 s timer gets handle 1); then the partial transcript ``hello'' (the
  silence timer gets handle 2), that timer fires, the recogniser stops at 1500 ms with
  nothing more to add, and the gateway accepts the message (the response timer gets handle
  3); then the reply ``hi there'' at 1700 ms.
\<close>

definition ev_listening :: "event list" where
  "ev_listening = [WhisperReady, Init, Start, Settles 0 (Fulfilled []) 0]"

definition ev_processing :: "event list" where
  "ev_processing = ev_listening @
     [WhisperEvent True (str ''hello''), TimerFires 2,
      Settles 0 (Fulfilled []) 1500, Settles 0 (Fulfilled []) 1600]"

definition s_listening :: conv where
  "s_listening = run ev_listening conv_init"

definition s_processing :: conv where
  "s_processing = run ev_processing conv_init"

definition s_speaking :: conv where
  "s_speaking = run (ev_processing @ [GatewayMessage (str ''hi there'') 1700]) conv_init"

text \<open>
  The conversation goes on into a second turn: the speech ends at 2500 ms, the next
  capture session starts (the 10 s timer gets handle 4), the partial transcript ``thanks''
  arrives (the silence timer gets handle 5), that timer fires, the recogniser stops at
  5000 ms and the gateway accepts the message (the response timer gets handle 6). The
  response timer of the first turn, handle 3, is due at 31600 ms, that of the second at
  35100 ms.
\<close>

definition ev_turn2 :: "event list" where
  "ev_turn2 = ev_processing @
     [GatewayMessage (str ''hi there'') 1700,
      Settles 0 (Fulfilled []) 2500,
      Settles 0 (Fulfilled []) 2600,
      WhisperEvent True (str ''thanks''),
      TimerFires 5,
      Settles 0 (Fulfilled []) 5000,
      Settles 0 (Fulfilled []) 5100]"

definition s_turn2 :: conv where
  "s_turn2 = run ev_turn2 conv_init"

text \<open>
  The first turn gets no reply instead: its response timer fires (at 31600 ms), the next
  capture session starts, the partial transcript ``thanks'' arrives, the silence timer
  (handle 5) fires, the recogniser stops at 40000 ms and the gateway accepts the second
  message.
\<close>

definition ev_late :: "event list" where
  "ev_late = ev_processing @
     [TimerFires 3,
      Settles 0 (Fulfilled []) 31700,
      WhisperEvent True (str ''thanks''),
      TimerFires 5,
      Settles 0 (Fulfilled []) 40000,
      Settles 0 (Fulfilled []) 40100]"

definition s_late :: conv where
  "s_late = run ev_late conv_init"

text \<open>The assistant messages among the calls made, in order.\<close>

fun assistant_messages :: "effect list \<Rightarrow> ChatMessage list" where
  "assistant_messages [] = []"
| "assistant_messages (NewMessage m # es) =
     (if msg_role m = Assistant then m # assistant_messages es else assistant_messages es)"
| "assistant_messages (e # es) = assistant_messages es"

text \<open>
  The one event that sets the waiting flag: \<open>onSilenceDetected\<close> goes on after the
  recogniser has stopped, with a final text that is not blank, and dispatches the turn.
  A history dispatches no turn when none of its events does, each taken in the state
  it meets.
\<close>

definition dispatches :: "event \<Rightarrow> conv \<Rightarrow> bool" where
  "dispatches e s =
     (case e of
        Settles n out now \<Rightarrow>
          n < length (tasks s) \<and> tasks s ! n = AwaitListenerStop_silence
          \<and> (case out of Fulfilled native \<Rightarrow> truthy (trim (listener_stop_text native s))
              | Rejected \<Rightarrow> False)
      | _ \<Rightarrow> False)"

fun no_dispatch :: "event list \<Rightarrow> conv \<Rightarrow> bool" where
  "no_dispatch [] s = True"
| "no_dispatch (e # es) s = (\<not> dispatches e s \<and> no_dispatch es (step e s))"

text \<open>The same start, followed by a partial transcript that is one space.\<close>

definition s_blank :: conv where
  "s_blank = run (ev_listening @ [WhisperEvent True (str '' '')]) conv_init"

text \<open>
  A gateway session: both handlers registered, \<open>connect\<close>, the socket (number 0) opens,
  the server's challenge arrives and \<open>doConnect\<close> sends request \<open>rn-1\<close>, the server
  answers it and \<open>doConnect\<close> goes on (keepalive armed, request \<open>rn-2\<close> sent); then
  \<open>sendMessage\<close> sends request \<open>rn-3\<close>.
\<close>

definition cfg :: GatewayConfig where
  "cfg = \<lparr>url = str ''ws://gateway:18789'', token = str ''secret''\<rparr>"

definition challenge :: "GatewayFrame option" where
  "challenge = Some (Event (str ''connect.challenge'') (JObject [(str ''nonce'', JString (str ''n1''))]))"

definition gw_ev_open :: "gw_event list" where
  "gw_ev_open = [OnMessage, OnStateChange, Connect cfg, WsOpen 0]"

definition gw_ev_connected :: "gw_event list" where
  "gw_ev_connected = gw_ev_open @
     [WsMessage 0 challenge,
      WsMessage 0 (Some (Res (str ''rn-1'') True (JObject []) None)),
      Continue 0]"

definition g_open :: gw where
  "g_open = gw_run gw_ev_open gw_init"

definition g_connected :: gw where
  "g_connected = gw_run gw_ev_connected gw_init"

definition g_sending :: gw where
  "g_sending = gw_run (gw_ev_connected @ [SendMessage (str ''hello'')]) gw_init"

text \<open>The session above, after the socket has closed.\<close>

definition g_closed :: gw where
  "g_closed = gw_run (gw_ev_connected @ [SendMessage (str ''hello''), WsClosed 0]) gw_init"

text \<open>The arguments of the calls of the message handler among the calls made, in order.\<close>

fun message_calls :: "gw_effect list \<Rightarrow> (json \<times> json) list" where
  "message_calls [] = []"
| "message_calls (MessageHandler t m # es) = (t, m) # message_calls es"
| "message_calls (e # es) = message_calls es"

text \<open>A chat event that carries a complete assistant message, and a reply event whose
  role is not the assistant's.\<close>

definition chat_message_payload :: json where
  "chat_message_payload = JObject
     [(str ''type'', JString (str ''message'')),
      (str ''role'', JString (str ''assistant'')),
      (str ''text'', JString (str ''hi there''))]"

definition user_reply_payload :: json where
  "user_reply_payload = JObject
     [(str ''role'', JString (str ''user'')),
      (str ''text'', JString (str ''hello''))]"

text \<open>A complete assistant message whose text is empty.\<close>

definition empty_message_payload :: json where
  "empty_message_payload = JObject
     [(str ''type'', JString (str ''message'')),
      (str ''role'', JString (str ''assistant'')),
      (str ''text'', JString [])]"

text \<open>A chat event that carries a complete message of the user.\<close>

definition user_message_payload :: json where
  "user_message_payload = JObject
     [(str ''type'', JString (str ''message'')),
      (str ''role'', JString (str ''user'')),
      (str ''text'', JString (str ''hello''))]"

text \<open>Fifty-one messages, numbered by their timestamps.\<close>

definition numbered :: "nat \<Rightarrow> ChatMessage" where
  "numbered n = \<lparr>msg_role = User, msg_text = [], msg_timestamp = n\<rparr>"

definition fifty_one :: "ChatMessage list" where
  "fifty_one = map numbered [0..<51]"

section \<open>Invariants of the gateway client\<close>

text \<open>The request id made from a number, and the number read back from its digits.\<close>

definition rn :: "nat \<Rightarrow> jstring" where
  "rn k = str ''rn-'' @ decimal k"

definition undecimal :: "jstring \<Rightarrow> nat" where
  "undecimal ds = foldl (\<lambda>a d. 10 * a + (d - 48)) 0 ds"

text \<open>How often the calls made settle promise \<open>p\<close>.\<close>

fun settle_count :: "nat \<Rightarrow> gw_effect list \<Rightarrow> nat" where
  "settle_count p [] = 0"
| "settle_count p (Resolve q v # es) = (if q = p then 1 else 0) + settle_count p es"
| "settle_count p (Reject q m # es) = (if q = p then 1 else 0) + settle_count p es"
| "settle_count p (e # es) = settle_count p es"

definition is_settle :: "gw_effect \<Rightarrow> bool" where
  "is_settle e \<longleftrightarrow> (case e of Resolve p v \<Rightarrow> True | Reject p m \<Rightarrow> True | _ \<Rightarrow> False)"

text \<open>
  What holds of the registrations throughout: ids and promises are registered once, a
  registered promise is unsettled and its id was issued by \<open>nextId\<close>, a request timeout
  finds under its id its own promise or none, and no promise is settled twice.
\<close>

definition issued :: "nat \<Rightarrow> jstring \<Rightarrow> bool" where
  "issued R rid \<longleftrightarrow> (\<exists>k\<le>R. rid = rn k)"

definition timeout_ok :: "(jstring \<times> nat) list \<Rightarrow> nat \<Rightarrow> gw_timer \<Rightarrow> bool" where
  "timeout_ok P R t \<longleftrightarrow>
     (case gt_callback t of
        RequestTimeout rid m p \<Rightarrow>
          issued R rid \<and> (map_of P rid = None \<or> map_of P rid = Some p)
      | _ \<Rightarrow> True)"

definition pinv ::
  "(jstring \<times> nat) list \<Rightarrow> gw_timer list \<Rightarrow> gw_effect list \<Rightarrow> nat \<Rightarrow> nat \<Rightarrow> bool" where
  "pinv P T E NP R \<longleftrightarrow>
     distinct (map fst P) \<and> distinct (map snd P)
     \<and> (\<forall>(rid, p)\<in>set P. p < NP \<and> settle_count p E = 0 \<and> issued R rid)
     \<and> (\<forall>t\<in>set T. timeout_ok P R t)
     \<and> (\<forall>p. settle_count p E \<le> 1)
     \<and> (\<forall>p\<ge>NP. settle_count p E = 0)"

definition pending_inv :: "gw \<Rightarrow> bool" where
  "pending_inv s \<longleftrightarrow>
     pinv (pendingRequests s) (gw_timers s) (gw_effects s) (gw_nextPromise s) (reqId s)"

text \<open>
  What holds of the timers throughout: handles are distinct and below the next handle,
  the reconnection timers armed are the one whose handle is in \<open>_reconnectTimer\<close> (a
  timeout of 5000 ms), and the keepalive handle is not that one.
\<close>

definition reconnect_ids :: "gw_timer list \<Rightarrow> nat list" where
  "reconnect_ids ts = map gt_id (filter (\<lambda>t. gt_callback t = Reconnect) ts)"

definition timers_inv :: "gw \<Rightarrow> bool" where
  "timers_inv s \<longleftrightarrow>
     distinct (map gt_id (gw_timers s))
     \<and> (\<forall>t\<in>set (gw_timers s). gt_id t < gw_nextTimer s
         \<and> (gt_callback t = Reconnect \<longrightarrow> \<not> gt_repeat t \<and> gt_delay t = JNumber 5000))
     \<and> reconnect_ids (gw_timers s)
         = (if reconnectTimer s = None then [] else [the (reconnectTimer s)])
     \<and> (tickTimer s = None
         \<or> the (tickTimer s) < gw_nextTimer s \<and> reconnectTimer s \<noteq> tickTimer s)"

section \<open>Evaluation\<close>

lemma str_Nil [simp]: "str s = [] \<longleftrightarrow> s = []"
  by (simp add: str_def)

lemma str_eq [simp]: "str a = str b \<longleftrightarrow> a = b"
  by (simp add: str_def inj_map_eq_map inj_on_def)

lemma trim_hello: "trim (str ''hello'') = str ''hello''"
  by (simp add: trim_def str_def is_whitespace_def)

lemma trim_blank: "trim (str '' '') = []"
  by (simp add: trim_def str_def is_whitespace_def)

lemma run_append: "run (es @ fs) s = run fs (run es s)"
  by (induction es arbitrary: s) simp_all

lemma gw_run_append: "gw_run (es @ fs) s = gw_run fs (gw_run es s)"
  by (induction es arbitrary: s) simp_all

lemmas conv_defs = notify_def call_def suspend_def setTimeout_def clearTimeout_def
  startListening_throws_def startListening_call_def startListening_resume_def
  listener_stop_call_def listener_stop_text_def speak_call_def stopSpeaking_def
  setPhase_def init_def setSilenceThreshold_def clearSilenceTimer_def resetSilenceTimer_def
  beginListening_call_def armResponseTimer_def beginListening_resume_def noSpeechGuard_def
  onSilenceDetected_call_def onSilenceDetected_afterStop_def onSilenceDetected_afterSend_def
  responseTimeout_def handleAssistantReply_call_def handleAssistantReply_afterSpeak_def
  onMessage_def onPartialResult_def whisper_event_def start_def stop_call_def stop_afterStop_def
  interrupt_def fire_def resume_def step_def truthy_def

lemmas conv_eval = conv_defs trim_hello trim_blank Let_def

lemmas gw_defs = gw_call_def callOnMessage_def callOnStateChange_def gw_setTimer_def gw_clearTimer_def
  gw_suspend_def nextId_def send_def requestTimeout_def doConnect_call_def tick_def tickInterval_def
  doConnect_connected_def doConnect_failed_def handleEvent_def error_message_def handleFrame_def
  scheduleReconnect_def connect_def reconnect_def set_readyState_def ws_onopen_def ws_onmessage_def
  ws_onerror_def ws_onclose_def disconnect_def sendMessage_def onMessage_register_def
  onStateChange_register_def gw_fire_def awaited_def gw_resume_def continue_def gw_step_def

lemma decimal_digit: "n < 10 \<Longrightarrow> decimal n = [48 + n]"
  by (simp add: decimal.simps)

lemma str_append: "str a @ str b = str (a @ b)"
  by (simp add: str_def)

lemma decimal_small:
  "decimal (Suc 0) = str ''1''" "decimal (Suc (Suc 0)) = str ''2''"
  "decimal 2 = str ''2''" "decimal 3 = str ''3''"
  by (simp_all add: decimal_digit str_def)

lemmas gw_eval = gw_defs decimal_small str_append Let_def

lemma s_listening_eq:
  "s_listening = \<lparr> phase = Listening, handlers = True, activeListener = Some 1,
     silenceTimer = Some 1, lastPartialText = [], silenceThresholdMs = 1500,
     waitingForResponse = False, whisper_ctx = True, whisper_isRecording = True,
     whisper_currentTranscribe = Some 1, whisper_fullText = [], whisper_sessions = 1,
     tts_isSpeaking = False,
     timers = [\<lparr>timer_id = 1, timer_callback = NoSpeechGuard, timer_delay = 10000\<rparr>],
     nextTimer = 2, effects = [PhaseChange Listening, TranscribeRealtime], tasks = [] \<rparr>"
  by (simp add: s_listening_def ev_listening_def conv_init_def conv_eval)

lemma s_blank_eq:
  "s_blank = s_listening \<lparr> silenceTimer := None, lastPartialText := str '' '',
     whisper_fullText := str '' '', timers := [],
     effects := [PhaseChange Listening, TranscribeRealtime, Transcript (str '' '') False] \<rparr>"
  by (simp add: s_blank_def run_append s_listening_def [symmetric])
     (simp add: s_listening_eq conv_eval)

lemma s_processing_eq:
  "s_processing = \<lparr> phase = Processing, handlers = True, activeListener = None,
     silenceTimer = Some 2, lastPartialText = str ''hello'', silenceThresholdMs = 1500,
     waitingForResponse = True, whisper_ctx = True, whisper_isRecording = False,
     whisper_currentTranscribe = None, whisper_fullText = str ''hello'', whisper_sessions = 1,
     tts_isSpeaking = False,
     timers = [\<lparr>timer_id = 3, timer_callback = ResponseTimeout, timer_delay = 30000\<rparr>],
     nextTimer = 4,
     effects = [PhaseChange Listening, TranscribeRealtime, Transcript (str ''hello'') False,
        NativeStop, Transcript (str ''hello'') True,
        NewMessage \<lparr>msg_role = User, msg_text = str ''hello'', msg_timestamp = 1500\<rparr>,
        PhaseChange Processing, GatewaySendMessage (str ''hello'')],
     tasks = [] \<rparr>"
  by (simp add: s_processing_def ev_processing_def run_append s_listening_def [symmetric])
     (simp add: s_listening_eq conv_eval)

lemma s_speaking_eq:
  "s_speaking = s_processing \<lparr> phase := Speaking, waitingForResponse := False,
     tts_isSpeaking := True,
     effects := effects s_processing @
       [NewMessage \<lparr>msg_role = Assistant, msg_text = str ''hi there'', msg_timestamp = 1700\<rparr>,
        PhaseChange Speaking, SpeechSpeak (str ''hi there'')],
     tasks := [AwaitSpeak] \<rparr>"
  by (simp add: s_speaking_def run_append s_processing_def [symmetric])
     (simp add: s_processing_eq conv_eval)

lemma trim_thanks: "trim (str ''thanks'') = str ''thanks''"
  by (simp add: trim_def str_def is_whitespace_def)

lemma s_turn2_eq:
  "s_turn2 = s_speaking \<lparr> phase := Processing, silenceTimer := Some 5,
     lastPartialText := str ''thanks'', waitingForResponse := True,
     whisper_fullText := str ''thanks'', whisper_sessions := 2, tts_isSpeaking := False,
     timers := [\<lparr>timer_id = 3, timer_callback = ResponseTimeout, timer_delay = 30000\<rparr>,
                \<lparr>timer_id = 6, timer_callback = ResponseTimeout, timer_delay = 30000\<rparr>],
     nextTimer := 7,
     effects := effects s_speaking @
       [PhaseChange Listening, TranscribeRealtime, Transcript (str ''thanks'') False,
        NativeStop, Transcript (str ''thanks'') True,
        NewMessage \<lparr>msg_role = User, msg_text = str ''thanks'', msg_timestamp = 5000\<rparr>,
        PhaseChange Processing, GatewaySendMessage (str ''thanks'')],
     tasks := [] \<rparr>"
proof -
  have "s_turn2 = run [Settles 0 (Fulfilled []) 2500, Settles 0 (Fulfilled []) 2600,
      WhisperEvent True (str ''thanks''), TimerFires 5, Settles 0 (Fulfilled []) 5000,
      Settles 0 (Fulfilled []) 5100] s_speaking"
    by (simp add: s_turn2_def ev_turn2_def s_speaking_def run_append)
  then show ?thesis
    by (simp add: s_speaking_eq s_processing_eq conv_eval trim_thanks numeral_2_eq_2)
qed

lemma s_late_eq:
  "s_late = s_processing \<lparr> silenceTimer := Some 5,
     lastPartialText := str ''thanks'',
     whisper_fullText := str ''thanks'', whisper_sessions := 2,
     timers := [\<lparr>timer_id = 6, timer_callback = ResponseTimeout, timer_delay = 30000\<rparr>],
     nextTimer := 7,
     effects := effects s_processing @
       [PhaseChange Listening, TranscribeRealtime, Transcript (str ''thanks'') False,
        NativeStop, Transcript (str ''thanks'') True,
        NewMessage \<lparr>msg_role = User, msg_text = str ''thanks'', msg_timestamp = 40000\<rparr>,
        PhaseChange Processing, GatewaySendMessage (str ''thanks'')] \<rparr>"
proof -
  have "s_late = run [TimerFires 3, Settles 0 (Fulfilled []) 31700,
      WhisperEvent True (str ''thanks''), TimerFires 5, Settles 0 (Fulfilled []) 40000,
      Settles 0 (Fulfilled []) 40100] s_processing"
    by (simp add: s_late_def ev_late_def s_processing_def run_append)
  then show ?thesis
    by (simp add: s_processing_eq conv_eval trim_thanks numeral_2_eq_2)
qed

lemma g_open_eq:
  "g_open = \<lparr> ws = Some \<lparr>sock_id = 0, sock_url = url cfg, sock_readyState = OPEN\<rparr>,
     config = Some cfg, reqId = 0, pendingRequests = [],
     onMessageHandler = True, onStateChangeHandler = True, reconnectTimer = None,
     tickTimer = None, isConnected = False, gw_timers = [], gw_nextTimer = 1,
     gw_nextPromise = 0, gw_nextSocket = 1,
     gw_effects = [StateChange Connecting, WsNew 0 (url cfg)], gw_tasks = [] \<rparr>"
  by (simp add: g_open_def gw_ev_open_def gw_init_def gw_eval)

lemma g_connected_eq:
  "g_connected = g_open \<lparr> reqId := 2, pendingRequests := [(str ''rn-2'', 1)],
     tickTimer := Some 2, isConnected := True,
     gw_timers :=
       [\<lparr>gt_id = 1, gt_callback = RequestTimeout (str ''rn-1'') (str ''connect'') 0,
         gt_delay = JNumber 30000, gt_repeat = False\<rparr>,
        \<lparr>gt_id = 2, gt_callback = Tick, gt_delay = JNumber 15000, gt_repeat = True\<rparr>,
        \<lparr>gt_id = 3, gt_callback = RequestTimeout (str ''rn-2'') (str ''chat.subscribe'') 1,
         gt_delay = JNumber 30000, gt_repeat = False\<rparr>],
     gw_nextTimer := 4, gw_nextPromise := 2,
     gw_effects := gw_effects g_open @
       [WsSend 0 \<lparr>req_id = str ''rn-1'', req_method = str ''connect'',
                 req_params = connect_params cfg (JString (str ''n1''))\<rparr>,
        Resolve 0 (JObject []),
        StateChange Connected,
        WsSend 0 \<lparr>req_id = str ''rn-2'', req_method = str ''chat.subscribe'',
                 req_params = JObject [(str ''session'', JString (str ''main''))]\<rparr>],
     gw_tasks := [AwaitSubscribe 1] \<rparr>"
  by (simp add: g_connected_def gw_ev_connected_def gw_run_append g_open_def [symmetric])
     (simp add: g_open_eq challenge_def gw_eval)

lemma g_sending_eq:
  "g_sending = g_connected \<lparr> reqId := 3,
     pendingRequests := [(str ''rn-2'', 1), (str ''rn-3'', 2)],
     gw_timers := gw_timers g_connected @
       [\<lparr>gt_id = 4, gt_callback = RequestTimeout (str ''rn-3'') (str ''chat.send'') 2,
         gt_delay = JNumber 30000, gt_repeat = False\<rparr>],
     gw_nextTimer := 5, gw_nextPromise := 3,
     gw_effects := gw_effects g_connected @
       [WsSend 0 \<lparr>req_id = str ''rn-3'', req_method = str ''chat.send'',
                 req_params = JObject [(str ''session'', JString (str ''main'')),
                                       (str ''text'', JString (str ''hello''))]\<rparr>] \<rparr>"
  by (simp add: g_sending_def gw_run_append g_connected_def [symmetric])
     (simp add: g_connected_eq g_open_eq gw_eval)


lemma g_closed_eq:
  "g_closed = g_sending \<lparr>
     ws := Some \<lparr>sock_id = 0, sock_url = url cfg, sock_readyState = CLOSED\<rparr>,
     isConnected := False, tickTimer := None, reconnectTimer := Some 5,
     gw_timers :=
       [\<lparr>gt_id = 1, gt_callback = RequestTimeout (str ''rn-1'') (str ''connect'') 0,
         gt_delay = JNumber 30000, gt_repeat = False\<rparr>,
        \<lparr>gt_id = 3, gt_callback = RequestTimeout (str ''rn-2'') (str ''chat.subscribe'') 1,
         gt_delay = JNumber 30000, gt_repeat = False\<rparr>,
        \<lparr>gt_id = 4, gt_callback = RequestTimeout (str ''rn-3'') (str ''chat.send'') 2,
         gt_delay = JNumber 30000, gt_repeat = False\<rparr>,
        \<lparr>gt_id = 5, gt_callback = Reconnect, gt_delay = JNumber 5000, gt_repeat = False\<rparr>],
     gw_nextTimer := 6,
     gw_effects := gw_effects g_sending @ [StateChange Disconnected] \<rparr>"
proof -
  have "g_closed = ws_onclose 0 g_sending"
    by (simp add: g_closed_def g_sending_def gw_run_append gw_step_def)
  then show ?thesis
    by (simp add: g_sending_eq g_connected_eq g_open_eq gw_eval)
qed

section \<open>The message store\<close>

lemma addMessage_slice: "addMessage m h = slice_last 51 (h @ [m])"
  by (simp add: addMessage_def slice_last_def)

lemma slice_last_append: "ms \<noteq> [] \<Longrightarrow> slice_last 51 (slice_last 51 h @ ms) = slice_last 51 (h @ ms)"
  by (cases "length h \<le> 51") (simp_all add: slice_last_def add.commute)

lemma addMessages_slice: "addMessages (m # ms) h = slice_last 51 (h @ m # ms)"
proof (induction ms arbitrary: m h)
  case Nil
  show ?case by (simp add: addMessage_slice)
next
  case (Cons a ms)
  have "addMessages (m # a # ms) h = addMessages (a # ms) (addMessage m h)" by simp
  also have "\<dots> = slice_last 51 (slice_last 51 (h @ [m]) @ a # ms)"
    by (simp only: Cons.IH addMessage_slice)
  also have "\<dots> = slice_last 51 ((h @ [m]) @ a # ms)"
    by (rule slice_last_append) simp
  finally show ?case by simp
qed

text \<open>
  C5. The store is meant to keep the last 50 messages. \<open>addMessage\<close> keeps the last 50
  of the old history and then appends, so the 51st call leaves 51 messages, the first
  among them.
\<close>

theorem addMessage_fifty_one_retained:
  "length (addMessages fifty_one []) = 51 \<and> hd (addMessages fifty_one []) = numbered 0"
proof -
  have "fifty_one = numbered 0 # map numbered [1..<51]"
    by (simp add: fifty_one_def upt_conv_Cons)
  then have "addMessages fifty_one [] = slice_last 51 fifty_one"
    using addMessages_slice [of "numbered 0" "map numbered [1..<51]" "[]"] by simp
  moreover have "length fifty_one = 51" by (simp add: fifty_one_def)
  ultimately have "addMessages fifty_one [] = fifty_one" by (simp add: slice_last_def)
  then show ?thesis by (simp add: fifty_one_def upt_conv_Cons)
qed

section \<open>The conversation manager\<close>

lemma beginListening_resume_arms_guard:
  "timers (beginListening_resume None False True s) =
     timers s @ [\<lparr>timer_id = nextTimer s, timer_callback = NoSpeechGuard, timer_delay = 10000\<rparr>]
   \<and> silenceTimer (beginListening_resume None False True s) = Some (nextTimer s)"
  by (simp add: conv_defs Let_def)

text \<open>
  C1 (as amended). A capture session that has started arms a timer of 10000 ms and keeps
  its handle. When that timer fires in a Listening session whose last partial text is
  empty or blank, the callback only clears the timer handle: the phase stays Listening,
  nothing is emitted (no ChatMessage), and the capture session is left as it is: the
  recogniser is neither stopped nor started, no new session is begun, and no timer is
  armed in place of the one that fired.
\<close>

theorem noSpeechGuard_only_clears_timer:
  assumes "find (\<lambda>t. timer_id t = i) (timers s) = Some t"
    and "timer_callback t = NoSpeechGuard"
    and "phase s = Listening"
    and "\<not> truthy (trim (lastPartialText s))"
  shows "fire i s = clearSilenceTimer (clearTimeout i s)
    \<and> phase (fire i s) = Listening
    \<and> effects (fire i s) = effects s
    \<and> tasks (fire i s) = tasks s
    \<and> activeListener (fire i s) = activeListener s
    \<and> whisper_sessions (fire i s) = whisper_sessions s
    \<and> whisper_isRecording (fire i s) = whisper_isRecording s
    \<and> silenceTimer (fire i s) = None
    \<and> timers (fire i s) =
        filter (\<lambda>t. timer_id t \<noteq> i \<and> Some (timer_id t) \<noteq> silenceTimer s) (timers s)
    \<and> timers (beginListening_resume None False True v) =
        timers v @ [\<lparr>timer_id = nextTimer v, timer_callback = NoSpeechGuard, timer_delay = 10000\<rparr>]
    \<and> silenceTimer (beginListening_resume None False True v) = Some (nextTimer v)"
  using assms beginListening_resume_arms_guard [of v]
  by (auto simp add: fire_def noSpeechGuard_def resetSilenceTimer_def clearSilenceTimer_def
      clearTimeout_def Let_def split: option.splits)

theorem noSpeechGuard_only_clears_timer_witness:
  "phase s_listening = Listening \<and> lastPartialText s_listening = []
   \<and> timers s_listening = [\<lparr>timer_id = 1, timer_callback = NoSpeechGuard, timer_delay = 10000\<rparr>]
   \<and> phase (fire 1 s_listening) = Listening
   \<and> effects (fire 1 s_listening) = effects s_listening
   \<and> silenceTimer (fire 1 s_listening) = None
   \<and> timers (fire 1 s_listening) = []"
proof -
  have s: "phase s_listening = Listening" "lastPartialText s_listening = []"
    "timers s_listening = [\<lparr>timer_id = 1, timer_callback = NoSpeechGuard, timer_delay = 10000\<rparr>]"
    by (simp_all add: s_listening_eq)
  have "find (\<lambda>t. timer_id t = 1) (timers s_listening)
        = Some \<lparr>timer_id = 1, timer_callback = NoSpeechGuard, timer_delay = 10000\<rparr>"
    and "timer_callback \<lparr>timer_id = 1, timer_callback = NoSpeechGuard, timer_delay = 10000\<rparr>
        = NoSpeechGuard"
    and "phase s_listening = Listening"
    and "\<not> truthy (trim (lastPartialText s_listening))"
    by (simp_all add: s truthy_def trim_def)
  from noSpeechGuard_only_clears_timer [OF this, of s_listening, THEN conjunct2] s show ?thesis
    by simp
qed

text \<open>
  C1 as stated fails: after the 10 s timer has fired on a session without any partial
  transcript, the recogniser has been called once in all (at the start), the session
  count is still 1, no call of \<open>startListening\<close> is under way, and the listener is the
  one of the first session.
\<close>

theorem noSpeechGuard_no_capture_restart:
  "phase s_listening = Listening
   \<and> lastPartialText s_listening = []
   \<and> timers s_listening = [\<lparr>timer_id = 1, timer_callback = NoSpeechGuard, timer_delay = 10000\<rparr>]
   \<and> count_list (effects (fire 1 s_listening)) TranscribeRealtime = 1
   \<and> count_list (effects s_listening) TranscribeRealtime = 1
   \<and> whisper_sessions (fire 1 s_listening) = 1
   \<and> tasks (fire 1 s_listening) = []
   \<and> activeListener (fire 1 s_listening) = Some 1"
  by (simp add: s_listening_eq conv_eval trim_def)


lemma onMessage_not_waiting: "\<not> waitingForResponse s \<Longrightarrow> onMessage reply now s = s"
  by (simp add: onMessage_def)

lemma responseTimeout_not_waiting: "\<not> waitingForResponse s \<Longrightarrow> responseTimeout s = s"
  by (simp add: responseTimeout_def)

lemma beginListening_call_fields:
  "phase (beginListening_call k s) = Listening"
  "waitingForResponse (beginListening_call k s) = waitingForResponse s"
  "timers (beginListening_call k s) = timers s"
  "tts_isSpeaking (beginListening_call k s) = tts_isSpeaking s"
  "effects (beginListening_call k s) = effects s
     @ (if handlers s \<and> phase s \<noteq> Listening then [PhaseChange Listening] else [])
     @ (if startListening_throws s = None then [TranscribeRealtime] else [])"
  by (simp_all add: beginListening_call_def setPhase_def notify_def suspend_def
      startListening_call_def startListening_throws_def call_def Let_def)

lemma responseTimeout_fires:
  "waitingForResponse s \<Longrightarrow> phase s = Processing \<Longrightarrow>
     \<not> waitingForResponse (responseTimeout s) \<and> phase (responseTimeout s) = Listening"
  by (simp add: responseTimeout_def beginListening_call_fields)

lemma onMessage_waiting:
  "waitingForResponse s \<Longrightarrow>
     \<not> waitingForResponse (onMessage reply now s)
     \<and> effects (onMessage reply now s) = effects s
         @ (if handlers s
            then [NewMessage \<lparr>msg_role = Assistant, msg_text = reply, msg_timestamp = now\<rparr>]
            else [])
         @ (if handlers s \<and> phase s \<noteq> Speaking then [PhaseChange Speaking] else [])
         @ (if tts_isSpeaking s then [SpeechStop] else [])
         @ [SpeechSpeak reply]"
  by (simp add: onMessage_def handleAssistantReply_call_def notify_def setPhase_def
      speak_call_def call_def suspend_def Let_def)

lemma fire_callback:
  "find (\<lambda>t. timer_id t = i) (timers s) = Some t \<Longrightarrow>
     fire i s = (case timer_callback t of
                   NoSpeechGuard \<Rightarrow> noSpeechGuard (clearTimeout i s)
                 | SilenceTimeout \<Rightarrow> onSilenceDetected_call (clearTimeout i s)
                 | ResponseTimeout \<Rightarrow> responseTimeout (clearTimeout i s))"
  by (simp add: fire_def Let_def)

lemma assistant_messages_append [simp]:
  "assistant_messages (xs @ ys) = assistant_messages xs @ assistant_messages ys"
  by (induction xs rule: assistant_messages.induct) simp_all

lemma step_keeps_flag_clear:
  "\<not> waitingForResponse s \<Longrightarrow> \<not> dispatches e s \<Longrightarrow> \<not> waitingForResponse (step e s)"
  by (cases e)
     (auto simp add: dispatches_def conv_defs Let_def
        split: option.splits timer_callback.splits task.splits outcome.splits)

lemma step_no_assistant_message:
  "\<not> waitingForResponse s \<Longrightarrow>
     assistant_messages (effects (step e s)) = assistant_messages (effects s)"
  by (cases e)
     (auto simp add: conv_defs Let_def
        split: option.splits timer_callback.splits task.splits outcome.splits)

lemma run_keeps_flag_clear:
  "\<not> waitingForResponse s \<Longrightarrow> no_dispatch es s \<Longrightarrow>
     \<not> waitingForResponse (run es s)
     \<and> assistant_messages (effects (run es s)) = assistant_messages (effects s)"
proof (induction es arbitrary: s)
  case Nil
  then show ?case by simp
next
  case (Cons e es)
  from Cons.prems have "\<not> waitingForResponse (step e s)" "no_dispatch es (step e s)"
    by (simp_all add: step_keeps_flag_clear)
  from Cons.IH [OF this] Cons.prems(1) show ?case
    by (simp add: step_no_assistant_message)
qed

text \<open>
  C3 (as amended). When the response timer fires in Processing with the waiting flag set,
  the flag is cleared and the phase is Listening again (and stays so once the recogniser
  has started). The first reply clears the flag and emits the assistant message once.
  From then on, whichever of the two cleared the flag and whatever happens next, until
  the next turn is dispatched: the flag stays clear, a reply that arrives changes
  nothing, no assistant ChatMessage is emitted, and a response timer that fires changes
  nothing. (The response timer is never cancelled and the reply carries no turn id: once
  the next turn has set the flag again, they act on that turn.)
\<close>

theorem response_timeout_and_late_reply:
  "(find (\<lambda>t. timer_id t = i) (timers s) = Some t \<and> timer_callback t = ResponseTimeout
      \<longrightarrow> fire i s = responseTimeout (clearTimeout i s))
   \<and> (waitingForResponse s \<and> phase s = Processing \<longrightarrow>
        \<not> waitingForResponse (responseTimeout s)
        \<and> phase (responseTimeout s) = Listening
        \<and> onMessage reply now (responseTimeout s) = responseTimeout s)
   \<and> (\<not> waitingForResponse s \<longrightarrow> onMessage reply now s = s \<and> responseTimeout s = s)
   \<and> (waitingForResponse s \<longrightarrow>
        \<not> waitingForResponse (onMessage reply now s)
        \<and> effects (onMessage reply now s) = effects s
            @ (if handlers s
               then [NewMessage \<lparr>msg_role = Assistant, msg_text = reply, msg_timestamp = now\<rparr>]
               else [])
            @ (if handlers s \<and> phase s \<noteq> Speaking then [PhaseChange Speaking] else [])
            @ (if tts_isSpeaking s then [SpeechStop] else [])
            @ [SpeechSpeak reply]
        \<and> onMessage reply' now' (onMessage reply now s) = onMessage reply now s
        \<and> responseTimeout (onMessage reply now s) = onMessage reply now s)
   \<and> phase (beginListening_resume None False True v) = phase v
   \<and> (\<not> waitingForResponse s \<and> no_dispatch es s \<longrightarrow>
        \<not> waitingForResponse (run es s)
        \<and> assistant_messages (effects (run es s)) = assistant_messages (effects s)
        \<and> onMessage reply now (run es s) = run es s
        \<and> responseTimeout (run es s) = run es s)
   \<and> (waitingForResponse s \<and> phase s = Processing \<and> no_dispatch es (responseTimeout s) \<longrightarrow>
        \<not> waitingForResponse (run es (responseTimeout s))
        \<and> assistant_messages (effects (run es (responseTimeout s)))
            = assistant_messages (effects s)
        \<and> onMessage reply now (run es (responseTimeout s)) = run es (responseTimeout s)
        \<and> responseTimeout (run es (responseTimeout s)) = run es (responseTimeout s))
   \<and> (waitingForResponse s \<and> no_dispatch es (onMessage reply now s) \<longrightarrow>
        \<not> waitingForResponse (run es (onMessage reply now s))
        \<and> assistant_messages (effects (run es (onMessage reply now s)))
            = assistant_messages (effects s)
              @ (if handlers s
                 then [\<lparr>msg_role = Assistant, msg_text = reply, msg_timestamp = now\<rparr>]
                 else [])
        \<and> onMessage reply' now' (run es (onMessage reply now s))
            = run es (onMessage reply now s)
        \<and> responseTimeout (run es (onMessage reply now s)) = run es (onMessage reply now s))"
proof -
  have 1: "waitingForResponse s \<and> phase s = Processing \<longrightarrow>
        onMessage reply now (responseTimeout s) = responseTimeout s"
    using responseTimeout_fires [of s] onMessage_not_waiting by blast
  have 2: "waitingForResponse s \<longrightarrow>
        onMessage reply' now' (onMessage reply now s) = onMessage reply now s
        \<and> responseTimeout (onMessage reply now s) = onMessage reply now s"
    using onMessage_waiting [of s reply now] onMessage_not_waiting responseTimeout_not_waiting
    by blast
  have 3: "phase (beginListening_resume None False True v) = phase v"
    by (simp add: beginListening_resume_def startListening_resume_def setTimeout_def Let_def)
  have after: "\<not> waitingForResponse (run es u)
        \<and> assistant_messages (effects (run es u)) = assistant_messages (effects u)
        \<and> onMessage r n (run es u) = run es u
        \<and> responseTimeout (run es u) = run es u"
    if "\<not> waitingForResponse u" "no_dispatch es u" for u r n
    using run_keeps_flag_clear [OF that] onMessage_not_waiting responseTimeout_not_waiting
    by simp
  have 4: "\<not> waitingForResponse s \<and> no_dispatch es s \<longrightarrow>
        \<not> waitingForResponse (run es s)
        \<and> assistant_messages (effects (run es s)) = assistant_messages (effects s)
        \<and> onMessage reply now (run es s) = run es s
        \<and> responseTimeout (run es s) = run es s"
    using after [of s] by blast
  have "assistant_messages (effects (responseTimeout s)) = assistant_messages (effects s)"
    if "waitingForResponse s"
    by (simp add: responseTimeout_def beginListening_call_fields)
  then have 5: "waitingForResponse s \<and> phase s = Processing
        \<and> no_dispatch es (responseTimeout s) \<longrightarrow>
        \<not> waitingForResponse (run es (responseTimeout s))
        \<and> assistant_messages (effects (run es (responseTimeout s)))
            = assistant_messages (effects s)
        \<and> onMessage reply now (run es (responseTimeout s)) = run es (responseTimeout s)
        \<and> responseTimeout (run es (responseTimeout s)) = run es (responseTimeout s)"
    using after [of "responseTimeout s" reply now] responseTimeout_fires [of s] by simp
  have "assistant_messages (effects (onMessage reply now s))
        = assistant_messages (effects s)
          @ (if handlers s
             then [\<lparr>msg_role = Assistant, msg_text = reply, msg_timestamp = now\<rparr>]
             else [])"
    if "waitingForResponse s"
    using onMessage_waiting [OF that, of reply now] by simp
  then have 6: "waitingForResponse s \<and> no_dispatch es (onMessage reply now s) \<longrightarrow>
        \<not> waitingForResponse (run es (onMessage reply now s))
        \<and> assistant_messages (effects (run es (onMessage reply now s)))
            = assistant_messages (effects s)
              @ (if handlers s
                 then [\<lparr>msg_role = Assistant, msg_text = reply, msg_timestamp = now\<rparr>]
                 else [])
        \<and> onMessage reply' now' (run es (onMessage reply now s))
            = run es (onMessage reply now s)
        \<and> responseTimeout (run es (onMessage reply now s)) = run es (onMessage reply now s)"
    using after [of "onMessage reply now s" reply' now'] onMessage_waiting [of s reply now]
    by simp
  have 7: "(find (\<lambda>t. timer_id t = i) (timers s) = Some t \<and> timer_callback t = ResponseTimeout
      \<longrightarrow> fire i s = responseTimeout (clearTimeout i s))
   \<and> (waitingForResponse s \<and> phase s = Processing \<longrightarrow>
        \<not> waitingForResponse (responseTimeout s)
        \<and> phase (responseTimeout s) = Listening)
   \<and> (\<not> waitingForResponse s \<longrightarrow> onMessage reply now s = s \<and> responseTimeout s = s)
   \<and> (waitingForResponse s \<longrightarrow>
        \<not> waitingForResponse (onMessage reply now s)
        \<and> effects (onMessage reply now s) = effects s
            @ (if handlers s
               then [NewMessage \<lparr>msg_role = Assistant, msg_text = reply, msg_timestamp = now\<rparr>]
               else [])
            @ (if handlers s \<and> phase s \<noteq> Speaking then [PhaseChange Speaking] else [])
            @ (if tts_isSpeaking s then [SpeechStop] else [])
            @ [SpeechSpeak reply])"
    using responseTimeout_fires [of s] onMessage_waiting [of s reply now]
      onMessage_not_waiting [of s reply now] responseTimeout_not_waiting [of s]
      fire_callback [of i s t]
    by simp
  from 1 2 3 4 5 6 7 show ?thesis by blast
qed

theorem response_timeout_and_late_reply_witness:
  "waitingForResponse s_processing \<and> phase s_processing = Processing
   \<and> fire 3 s_processing = responseTimeout (clearTimeout 3 s_processing)
   \<and> \<not> waitingForResponse (responseTimeout s_processing)
   \<and> phase (responseTimeout s_processing) = Listening
   \<and> onMessage (str ''late'') 31000 (responseTimeout s_processing) = responseTimeout s_processing
   \<and> \<not> waitingForResponse s_speaking
   \<and> onMessage (str ''again'') 1800 s_speaking = s_speaking
   \<and> responseTimeout s_speaking = s_speaking
   \<and> onMessage (str ''again'') 1800 (onMessage (str ''hi there'') 1700 s_processing)
       = onMessage (str ''hi there'') 1700 s_processing
   \<and> no_dispatch [GatewayMessage (str ''again'') 1800, TimerFires 3, Interrupt] s_speaking
   \<and> \<not> waitingForResponse
         (run [GatewayMessage (str ''again'') 1800, TimerFires 3, Interrupt] s_speaking)
   \<and> assistant_messages (effects
         (run [GatewayMessage (str ''again'') 1800, TimerFires 3, Interrupt] s_speaking))
       = assistant_messages (effects s_speaking)
   \<and> no_dispatch [GatewayMessage (str ''late'') 31700] (responseTimeout s_processing)
   \<and> assistant_messages (effects
         (run [GatewayMessage (str ''late'') 31700] (responseTimeout s_processing)))
       = assistant_messages (effects s_processing)
   \<and> no_dispatch [TimerFires 3] (onMessage (str ''hi there'') 1700 s_processing)
   \<and> assistant_messages (effects
         (run [TimerFires 3] (onMessage (str ''hi there'') 1700 s_processing)))
       = assistant_messages (effects s_processing)
         @ [\<lparr>msg_role = Assistant, msg_text = str ''hi there'', msg_timestamp = 1700\<rparr>]"
proof -
  have p: "waitingForResponse s_processing" "phase s_processing = Processing"
    "handlers s_processing"
    "find (\<lambda>t. timer_id t = 3) (timers s_processing)
      = Some \<lparr>timer_id = 3, timer_callback = ResponseTimeout, timer_delay = 30000\<rparr>"
    "timer_callback \<lparr>timer_id = 3, timer_callback = ResponseTimeout, timer_delay = 30000\<rparr>
      = ResponseTimeout"
    by (simp_all add: s_processing_eq)
  have q: "\<not> waitingForResponse s_speaking"
    by (simp add: s_speaking_eq)
  have n: "no_dispatch [GatewayMessage (str ''again'') 1800, TimerFires 3, Interrupt] s_speaking"
    "no_dispatch [GatewayMessage (str ''late'') 31700] (responseTimeout s_processing)"
    "no_dispatch [TimerFires 3] (onMessage (str ''hi there'') 1700 s_processing)"
    by (simp_all add: dispatches_def)
  let ?t = "\<lparr>timer_id = 3, timer_callback = ResponseTimeout, timer_delay = 30000\<rparr>"
  note r = response_timeout_and_late_reply
  have a: "fire 3 s_processing = responseTimeout (clearTimeout 3 s_processing)
      \<and> \<not> waitingForResponse (responseTimeout s_processing)
      \<and> phase (responseTimeout s_processing) = Listening
      \<and> onMessage (str ''late'') 31000 (responseTimeout s_processing)
          = responseTimeout s_processing"
    using r [of 3 s_processing ?t "str ''late''" 31000 "str ''again''" 1800 s_processing "[]"] p
    by blast
  have b: "onMessage (str ''again'') 1800 s_speaking = s_speaking
      \<and> responseTimeout s_speaking = s_speaking
      \<and> \<not> waitingForResponse
           (run [GatewayMessage (str ''again'') 1800, TimerFires 3, Interrupt] s_speaking)
      \<and> assistant_messages (effects
           (run [GatewayMessage (str ''again'') 1800, TimerFires 3, Interrupt] s_speaking))
          = assistant_messages (effects s_speaking)"
    using r [of 3 s_speaking ?t "str ''again''" 1800 "str ''again''" 1800 s_processing
        "[GatewayMessage (str ''again'') 1800, TimerFires 3, Interrupt]"] q n(1)
    by blast
  have c: "onMessage (str ''again'') 1800 (onMessage (str ''hi there'') 1700 s_processing)
        = onMessage (str ''hi there'') 1700 s_processing"
    using r [of 3 s_processing ?t "str ''hi there''" 1700 "str ''again''" 1800 s_processing "[]"]
      p(1)
    by blast
  have d: "assistant_messages (effects
         (run [GatewayMessage (str ''late'') 31700] (responseTimeout s_processing)))
       = assistant_messages (effects s_processing)"
    using r [of 3 s_processing ?t "str ''late''" 31000 "str ''again''" 1800 s_processing
        "[GatewayMessage (str ''late'') 31700]"] p(1,2) n(2)
    by blast
  have e: "assistant_messages (effects
         (run [TimerFires 3] (onMessage (str ''hi there'') 1700 s_processing)))
       = assistant_messages (effects s_processing)
         @ (if handlers s_processing
            then [\<lparr>msg_role = Assistant, msg_text = str ''hi there'', msg_timestamp = 1700\<rparr>]
            else [])"
    using r [of 3 s_processing ?t "str ''hi there''" 1700 "str ''again''" 1800 s_processing
        "[TimerFires 3]"] p(1) n(3)
    by blast
  from a b c d e p q n show ?thesis by simp
qed

text \<open>
  C3 as stated fails: the reply of the first turn clears the flag (at 1700 ms) and leaves
  that turn's response timer armed. The second turn is dispatched at 5000 ms and waits
  for its reply. The first turn's timer fires at 31600 ms, after the flag was cleared,
  and is no no-op: it clears the flag of the second turn and sets the phase to
  Listening, 3500 ms before the second turn's own timer is due; the reply to the second
  turn that arrives next is dropped. And when the first turn times out, so that the
  timer clears the flag, and the second turn is dispatched at 40000 ms, a reply that
  arrives after that is not ignored: it produces an assistant message and the phase
  Speaking, whichever turn it answers.
\<close>

theorem stale_response_timer_ends_next_turn:
  "waitingForResponse s_processing
   \<and> \<not> waitingForResponse s_speaking
   \<and> timers s_speaking = [\<lparr>timer_id = 3, timer_callback = ResponseTimeout, timer_delay = 30000\<rparr>]
   \<and> phase s_turn2 = Processing
   \<and> waitingForResponse s_turn2
   \<and> timers s_turn2 = [\<lparr>timer_id = 3, timer_callback = ResponseTimeout, timer_delay = 30000\<rparr>,
                        \<lparr>timer_id = 6, timer_callback = ResponseTimeout, timer_delay = 30000\<rparr>]
   \<and> phase (fire 3 s_turn2) = Listening
   \<and> \<not> waitingForResponse (fire 3 s_turn2)
   \<and> onMessage (str ''welcome'') 32000 (fire 3 s_turn2) = fire 3 s_turn2
   \<and> \<not> waitingForResponse (fire 3 s_processing)
   \<and> assistant_messages (effects s_late) = []
   \<and> phase (onMessage (str ''hi there'') 40500 s_late) = Speaking
   \<and> assistant_messages (effects (onMessage (str ''hi there'') 40500 s_late))
       = [\<lparr>msg_role = Assistant, msg_text = str ''hi there'', msg_timestamp = 40500\<rparr>]"
  by (simp add: s_turn2_eq s_late_eq s_speaking_eq s_processing_eq conv_eval)

lemma stop_call_listener:
  "activeListener s \<noteq> None \<Longrightarrow>
     stop_call s =
       s\<lparr>silenceTimer := None,
         timers := filter (\<lambda>t. Some (timer_id t) \<noteq> silenceTimer s) (timers s),
         tts_isSpeaking := False, waitingForResponse := False,
         whisper_isRecording := False, whisper_currentTranscribe := None,
         effects := effects s @ (if tts_isSpeaking s then [SpeechStop] else []) @ [NativeStop],
         tasks := tasks s @ [AwaitListenerStop_stop]\<rparr>"
  by (cases "silenceTimer s"; cases "activeListener s")
     (simp_all add: stop_call_def clearSilenceTimer_def stopSpeaking_def listener_stop_call_def
        suspend_def call_def clearTimeout_def Let_def)

lemma stop_call_no_listener:
  "activeListener s = None \<Longrightarrow>
     stop_call s =
       s\<lparr>silenceTimer := None,
         timers := filter (\<lambda>t. Some (timer_id t) \<noteq> silenceTimer s) (timers s),
         tts_isSpeaking := False, waitingForResponse := False,
         phase := Idle,
         effects := effects s @ (if tts_isSpeaking s then [SpeechStop] else [])
                      @ (if handlers s \<and> phase s \<noteq> Idle then [PhaseChange Idle] else [])\<rparr>"
  by (cases "silenceTimer s")
     (simp_all add: stop_call_def clearSilenceTimer_def stopSpeaking_def setPhase_def
        notify_def call_def clearTimeout_def Let_def)

lemma stop_afterStop_eq:
  "stop_afterStop u =
     u\<lparr>activeListener := None, phase := Idle,
       effects := effects u @ (if handlers u \<and> phase u \<noteq> Idle then [PhaseChange Idle] else [])\<rparr>"
  by (simp add: stop_afterStop_def setPhase_def notify_def)

text \<open>
  C6 (as amended). \<open>stop\<close> cancels the timer whose handle is in \<open>_silenceTimer\<close> (the
  silence timer or the 10 s timer) and no other, stops speech (it calls \<open>Speech.stop\<close>
  when the synthesiser is speaking) and clears the waiting flag. Without a listener it
  ends in Idle at once, reporting the phase change; with one it calls the recogniser's
  \<open>stop\<close>, which ends the capture session, and, when that has resolved, clears the
  listener and ends in Idle, reporting the phase change. These are the only calls it
  makes and the only fields it changes. Timers armed without a stored handle (the
  response timer) stay armed; a response timer that fires next finds the waiting flag
  clear and changes nothing.
\<close>

theorem stop_result:
  "silenceTimer (stop_call s) = None
   \<and> \<not> tts_isSpeaking (stop_call s)
   \<and> \<not> waitingForResponse (stop_call s)
   \<and> timers (stop_call s) = filter (\<lambda>t. Some (timer_id t) \<noteq> silenceTimer s) (timers s)
   \<and> (activeListener s = None \<longrightarrow>
        phase (stop_call s) = Idle \<and> activeListener (stop_call s) = None
        \<and> tasks (stop_call s) = tasks s)
   \<and> (activeListener s \<noteq> None \<longrightarrow>
        tasks (stop_call s) = tasks s @ [AwaitListenerStop_stop]
        \<and> \<not> whisper_isRecording (stop_call s)
        \<and> phase (stop_afterStop (stop_call s)) = Idle
        \<and> activeListener (stop_afterStop (stop_call s)) = None)
   \<and> phase (stop_afterStop u) = Idle
   \<and> activeListener (stop_afterStop u) = None
   \<and> timers (stop_afterStop u) = timers u
   \<and> silenceTimer (stop_afterStop u) = silenceTimer u
   \<and> tts_isSpeaking (stop_afterStop u) = tts_isSpeaking u
   \<and> whisper_isRecording (stop_afterStop u) = whisper_isRecording u
   \<and> waitingForResponse (stop_afterStop u) = waitingForResponse u
   \<and> responseTimeout (stop_call s) = stop_call s
   \<and> effects (stop_call s) = effects s
        @ (if tts_isSpeaking s then [SpeechStop] else [])
        @ (if activeListener s \<noteq> None then [NativeStop]
           else if handlers s \<and> phase s \<noteq> Idle then [PhaseChange Idle] else [])
   \<and> effects (stop_afterStop u) = effects u
        @ (if handlers u \<and> phase u \<noteq> Idle then [PhaseChange Idle] else [])
   \<and> (activeListener s \<noteq> None \<longrightarrow>
        whisper_currentTranscribe (stop_call s) = None
        \<and> phase (stop_call s) = phase s
        \<and> effects (stop_afterStop (stop_call s)) = effects s
             @ (if tts_isSpeaking s then [SpeechStop] else [])
             @ [NativeStop]
             @ (if handlers s \<and> phase s \<noteq> Idle then [PhaseChange Idle] else [])
        \<and> stop_call s =
             s\<lparr>silenceTimer := None,
               timers := filter (\<lambda>t. Some (timer_id t) \<noteq> silenceTimer s) (timers s),
               tts_isSpeaking := False, waitingForResponse := False,
               whisper_isRecording := False, whisper_currentTranscribe := None,
               effects := effects s @ (if tts_isSpeaking s then [SpeechStop] else [])
                            @ [NativeStop],
               tasks := tasks s @ [AwaitListenerStop_stop]\<rparr>)
   \<and> (activeListener s = None \<longrightarrow>
        stop_call s =
          s\<lparr>silenceTimer := None,
            timers := filter (\<lambda>t. Some (timer_id t) \<noteq> silenceTimer s) (timers s),
            tts_isSpeaking := False, waitingForResponse := False,
            phase := Idle,
            effects := effects s @ (if tts_isSpeaking s then [SpeechStop] else [])
               @ (if handlers s \<and> phase s \<noteq> Idle then [PhaseChange Idle] else [])\<rparr>)
   \<and> stop_afterStop u =
        u\<lparr>activeListener := None, phase := Idle,
          effects := effects u
             @ (if handlers u \<and> phase u \<noteq> Idle then [PhaseChange Idle] else [])\<rparr>"
proof -
  have 1: "silenceTimer (stop_call s) = None
   \<and> \<not> tts_isSpeaking (stop_call s)
   \<and> \<not> waitingForResponse (stop_call s)
   \<and> timers (stop_call s) = filter (\<lambda>t. Some (timer_id t) \<noteq> silenceTimer s) (timers s)
   \<and> (activeListener s = None \<longrightarrow>
        phase (stop_call s) = Idle \<and> activeListener (stop_call s) = None
        \<and> tasks (stop_call s) = tasks s)
   \<and> (activeListener s \<noteq> None \<longrightarrow>
        tasks (stop_call s) = tasks s @ [AwaitListenerStop_stop]
        \<and> \<not> whisper_isRecording (stop_call s)
        \<and> phase (stop_afterStop (stop_call s)) = Idle
        \<and> activeListener (stop_afterStop (stop_call s)) = None)
   \<and> phase (stop_afterStop u) = Idle
   \<and> activeListener (stop_afterStop u) = None
   \<and> timers (stop_afterStop u) = timers u
   \<and> silenceTimer (stop_afterStop u) = silenceTimer u
   \<and> tts_isSpeaking (stop_afterStop u) = tts_isSpeaking u
   \<and> whisper_isRecording (stop_afterStop u) = whisper_isRecording u
   \<and> waitingForResponse (stop_afterStop u) = waitingForResponse u
   \<and> responseTimeout (stop_call s) = stop_call s"
    by (auto simp add: conv_defs Let_def split: option.splits)
  have 2: "effects (stop_call s) = effects s
        @ (if tts_isSpeaking s then [SpeechStop] else [])
        @ (if activeListener s \<noteq> None then [NativeStop]
           else if handlers s \<and> phase s \<noteq> Idle then [PhaseChange Idle] else [])"
    using stop_call_listener [of s] stop_call_no_listener [of s]
    by (cases "activeListener s") simp_all
  have 3: "effects (stop_afterStop u) = effects u
        @ (if handlers u \<and> phase u \<noteq> Idle then [PhaseChange Idle] else [])"
    by (simp add: stop_afterStop_eq)
  have 4: "activeListener s \<noteq> None \<longrightarrow>
        whisper_currentTranscribe (stop_call s) = None
        \<and> phase (stop_call s) = phase s
        \<and> effects (stop_afterStop (stop_call s)) = effects s
             @ (if tts_isSpeaking s then [SpeechStop] else [])
             @ [NativeStop]
             @ (if handlers s \<and> phase s \<noteq> Idle then [PhaseChange Idle] else [])
        \<and> stop_call s =
             s\<lparr>silenceTimer := None,
               timers := filter (\<lambda>t. Some (timer_id t) \<noteq> silenceTimer s) (timers s),
               tts_isSpeaking := False, waitingForResponse := False,
               whisper_isRecording := False, whisper_currentTranscribe := None,
               effects := effects s @ (if tts_isSpeaking s then [SpeechStop] else [])
                            @ [NativeStop],
               tasks := tasks s @ [AwaitListenerStop_stop]\<rparr>"
    by (simp add: stop_call_listener stop_afterStop_eq)
  have 5: "activeListener s = None \<longrightarrow>
        stop_call s =
          s\<lparr>silenceTimer := None,
            timers := filter (\<lambda>t. Some (timer_id t) \<noteq> silenceTimer s) (timers s),
            tts_isSpeaking := False, waitingForResponse := False,
            phase := Idle,
            effects := effects s @ (if tts_isSpeaking s then [SpeechStop] else [])
               @ (if handlers s \<and> phase s \<noteq> Idle then [PhaseChange Idle] else [])\<rparr>"
    by (simp add: stop_call_no_listener)
  have 6: "stop_afterStop u =
        u\<lparr>activeListener := None, phase := Idle,
          effects := effects u
             @ (if handlers u \<and> phase u \<noteq> Idle then [PhaseChange Idle] else [])\<rparr>"
    by (rule stop_afterStop_eq)
  from 1 2 3 4 5 6 show ?thesis
    by (elim conjE) (intro conjI; assumption)
qed

theorem stop_result_witness:
  "activeListener s_listening \<noteq> None
   \<and> timers (stop_call s_listening) = []
   \<and> \<not> whisper_isRecording (stop_call s_listening)
   \<and> phase (stop_afterStop (stop_call s_listening)) = Idle
   \<and> activeListener (stop_afterStop (stop_call s_listening)) = None
   \<and> timers (stop_afterStop (stop_call s_listening)) = []
   \<and> activeListener s_speaking = None
   \<and> phase (stop_call s_speaking) = Idle
   \<and> \<not> tts_isSpeaking (stop_call s_speaking)
   \<and> effects (stop_call s_listening) = effects s_listening @ [NativeStop]
   \<and> effects (stop_afterStop (stop_call s_listening))
       = effects s_listening @ [NativeStop, PhaseChange Idle]
   \<and> effects (stop_call s_speaking) = effects s_speaking @ [SpeechStop, PhaseChange Idle]"
proof -
  have l: "activeListener s_listening \<noteq> None" "silenceTimer s_listening = Some 1"
    "timers s_listening = [\<lparr>timer_id = 1, timer_callback = NoSpeechGuard, timer_delay = 10000\<rparr>]"
    "\<not> tts_isSpeaking s_listening" "handlers s_listening" "phase s_listening = Listening"
    by (simp_all add: s_listening_eq)
  have k: "activeListener s_speaking = None" "tts_isSpeaking s_speaking"
    "handlers s_speaking" "phase s_speaking = Speaking"
    by (simp_all add: s_speaking_eq s_processing_eq)
  from stop_result [of s_listening "stop_call s_listening"]
  have "timers (stop_call s_listening)
        = filter (\<lambda>t. Some (timer_id t) \<noteq> silenceTimer s_listening) (timers s_listening)
      \<and> (activeListener s_listening \<noteq> None \<longrightarrow>
           \<not> whisper_isRecording (stop_call s_listening)
           \<and> phase (stop_afterStop (stop_call s_listening)) = Idle
           \<and> activeListener (stop_afterStop (stop_call s_listening)) = None)
      \<and> timers (stop_afterStop (stop_call s_listening)) = timers (stop_call s_listening)
      \<and> effects (stop_call s_listening) = effects s_listening
           @ (if tts_isSpeaking s_listening then [SpeechStop] else [])
           @ (if activeListener s_listening \<noteq> None then [NativeStop]
              else if handlers s_listening \<and> phase s_listening \<noteq> Idle
                   then [PhaseChange Idle] else [])
      \<and> (activeListener s_listening \<noteq> None \<longrightarrow>
           effects (stop_afterStop (stop_call s_listening)) = effects s_listening
             @ (if tts_isSpeaking s_listening then [SpeechStop] else [])
             @ [NativeStop]
             @ (if handlers s_listening \<and> phase s_listening \<noteq> Idle
                then [PhaseChange Idle] else []))"
    by blast
  with l
  have a: "timers (stop_call s_listening) = []
      \<and> \<not> whisper_isRecording (stop_call s_listening)
      \<and> phase (stop_afterStop (stop_call s_listening)) = Idle
      \<and> activeListener (stop_afterStop (stop_call s_listening)) = None
      \<and> timers (stop_afterStop (stop_call s_listening)) = []
      \<and> effects (stop_call s_listening) = effects s_listening @ [NativeStop]
      \<and> effects (stop_afterStop (stop_call s_listening))
          = effects s_listening @ [NativeStop, PhaseChange Idle]"
    by simp
  from stop_result [of s_speaking s_speaking]
  have "(activeListener s_speaking = None \<longrightarrow> phase (stop_call s_speaking) = Idle)
      \<and> \<not> tts_isSpeaking (stop_call s_speaking)
      \<and> effects (stop_call s_speaking) = effects s_speaking
           @ (if tts_isSpeaking s_speaking then [SpeechStop] else [])
           @ (if activeListener s_speaking \<noteq> None then [NativeStop]
              else if handlers s_speaking \<and> phase s_speaking \<noteq> Idle
                   then [PhaseChange Idle] else [])"
    by blast
  with k
  have b: "phase (stop_call s_speaking) = Idle
      \<and> \<not> tts_isSpeaking (stop_call s_speaking)
      \<and> effects (stop_call s_speaking) = effects s_speaking @ [SpeechStop, PhaseChange Idle]"
    by simp
  from a b l k show ?thesis by simp
qed

text \<open>
  C6 as stated fails: \<open>stop\<close> called in Processing, after the message has been sent,
  ends in Idle with the 30 s response timer still armed.
\<close>

theorem stop_leaves_response_timer:
  "phase s_processing = Processing
   \<and> phase (stop_call s_processing) = Idle
   \<and> timers (stop_call s_processing)
       = [\<lparr>timer_id = 3, timer_callback = ResponseTimeout, timer_delay = 30000\<rparr>]"
  by (simp add: s_processing_eq conv_eval)

text \<open>
  C8. \<open>interrupt\<close> in Speaking stops the speech and sets the phase to Listening at once
  (where it stays once the recogniser has started); what it emits is the stop of the
  speech, the phase change to Listening and the start of the recogniser: no phase change
  to Processing and no ChatMessage. In any other phase it leaves the state as it is.
\<close>

theorem interrupt_speaking_or_noop:
  "(phase s = Speaking \<longrightarrow>
      phase (interrupt s) = Listening
      \<and> \<not> tts_isSpeaking (interrupt s)
      \<and> effects (interrupt s) = effects s
          @ (if tts_isSpeaking s then [SpeechStop] else [])
          @ (if handlers s then [PhaseChange Listening] else [])
          @ (if startListening_throws s = None then [TranscribeRealtime] else [])
      \<and> waitingForResponse (interrupt s) = waitingForResponse s
      \<and> timers (interrupt s) = timers s)
   \<and> (phase s \<noteq> Speaking \<longrightarrow> interrupt s = s)
   \<and> phase (beginListening_resume None False True v) = phase v"
  by (simp add: conv_defs Let_def)

theorem interrupt_speaking_or_noop_witness:
  "phase s_speaking = Speaking
   \<and> phase (interrupt s_speaking) = Listening
   \<and> \<not> tts_isSpeaking (interrupt s_speaking)
   \<and> effects (interrupt s_speaking)
       = effects s_speaking @ [SpeechStop, PhaseChange Listening, TranscribeRealtime]
   \<and> phase s_processing \<noteq> Speaking
   \<and> interrupt s_processing = s_processing"
proof -
  have a: "phase s_speaking = Speaking" "tts_isSpeaking s_speaking" "handlers s_speaking"
    "startListening_throws s_speaking = None"
    by (simp_all add: s_speaking_eq s_processing_eq startListening_throws_def)
  have b: "phase s_processing \<noteq> Speaking"
    by (simp add: s_processing_eq)
  from interrupt_speaking_or_noop [of s_speaking s_speaking]
    interrupt_speaking_or_noop [of s_processing s_processing] a b
  show ?thesis by simp
qed

text \<open>
  C10. A partial transcript that is empty or blank clears the timer whose handle is in
  \<open>_silenceTimer\<close> (the 10 s timer included) and arms none. \<open>resetSilenceTimer\<close> arms a
  timer exactly when the last partial text has a character that is not white space. So
  the conversation can be in Listening with no timer armed: it is, after a session has
  started and one blank partial transcript has arrived.
\<close>

theorem resetSilenceTimer_arms_iff_text:
  "(\<not> truthy (trim txt) \<longrightarrow>
      silenceTimer (onPartialResult txt s) = None
      \<and> timers (onPartialResult txt s)
          = filter (\<lambda>t. Some (timer_id t) \<noteq> silenceTimer s) (timers s)
      \<and> phase (onPartialResult txt s) = phase s)
   \<and> (silenceTimer (resetSilenceTimer s) \<noteq> None \<longleftrightarrow> truthy (trim (lastPartialText s)))
   \<and> timers (resetSilenceTimer s)
       = filter (\<lambda>t. Some (timer_id t) \<noteq> silenceTimer s) (timers s)
         @ (if truthy (trim (lastPartialText s))
            then [\<lparr>timer_id = nextTimer s, timer_callback = SilenceTimeout,
                   timer_delay = silenceThresholdMs s\<rparr>]
            else [])
   \<and> timers s_listening = [\<lparr>timer_id = 1, timer_callback = NoSpeechGuard, timer_delay = 10000\<rparr>]
   \<and> s_blank = whisper_event True (str '' '') s_listening
   \<and> phase s_blank = Listening \<and> timers s_blank = [] \<and> silenceTimer s_blank = None"
proof -
  have "s_blank = whisper_event True (str '' '') s_listening"
    by (simp add: s_blank_def s_listening_def run_append step_def)
  moreover have "phase s_blank = Listening \<and> timers s_blank = [] \<and> silenceTimer s_blank = None"
    by (simp add: s_blank_eq s_listening_eq)
  moreover have "timers s_listening = [\<lparr>timer_id = 1, timer_callback = NoSpeechGuard, timer_delay = 10000\<rparr>]"
    by (simp add: s_listening_eq)
  ultimately show ?thesis
    by (auto simp add: conv_defs Let_def split: option.splits)
qed

theorem resetSilenceTimer_arms_iff_text_witness:
  "\<not> truthy (trim (str '' ''))
   \<and> silenceTimer s_listening = Some 1
   \<and> silenceTimer (onPartialResult (str '' '') s_listening) = None
   \<and> timers (onPartialResult (str '' '') s_listening) = []
   \<and> phase (onPartialResult (str '' '') s_listening) = Listening
   \<and> truthy (trim (lastPartialText s_processing))
   \<and> silenceTimer (resetSilenceTimer s_processing) \<noteq> None"
proof -
  have a: "\<not> truthy (trim (str '' ''))" "silenceTimer s_listening = Some 1"
    "timers s_listening = [\<lparr>timer_id = 1, timer_callback = NoSpeechGuard, timer_delay = 10000\<rparr>]"
    "phase s_listening = Listening"
    "truthy (trim (lastPartialText s_processing))"
    by (simp_all add: s_listening_eq s_processing_eq trim_blank trim_hello truthy_def)
  from resetSilenceTimer_arms_iff_text [of "str '' ''" s_listening]
       resetSilenceTimer_arms_iff_text [of "str '' ''" s_processing] a
  show ?thesis by simp
qed


section \<open>The gateway client\<close>

lemma message_calls_append [simp]:
  "message_calls (xs @ ys) = message_calls xs @ message_calls ys"
  by (induction xs rule: message_calls.induct) auto

lemma send_not_open:
  "ws s = None \<or> (\<exists>w. ws s = Some w \<and> sock_readyState w \<noteq> OPEN) \<Longrightarrow>
     send frame s =
       s\<lparr>gw_nextPromise := Suc (gw_nextPromise s),
         gw_effects := gw_effects s
           @ [Reject (gw_nextPromise s) (str ''WebSocket not connected'')]\<rparr>"
  by (auto simp add: send_def gw_call_def Let_def)

lemma send_open:
  "ws s = Some w \<Longrightarrow> sock_readyState w = OPEN \<Longrightarrow>
     send frame s =
       s\<lparr>gw_nextPromise := Suc (gw_nextPromise s),
         pendingRequests := AList.update (req_id frame) (gw_nextPromise s) (pendingRequests s),
         gw_effects := gw_effects s @ [WsSend (sock_id w) frame],
         gw_timers := gw_timers s @
           [\<lparr>gt_id = gw_nextTimer s,
             gt_callback = RequestTimeout (req_id frame) (req_method frame) (gw_nextPromise s),
             gt_delay = JNumber 30000, gt_repeat = False\<rparr>],
         gw_nextTimer := Suc (gw_nextTimer s)\<rparr>"
  by (simp add: send_def gw_call_def gw_setTimer_def Let_def)

lemma send_message_calls:
  "message_calls (gw_effects (send frame s)) = message_calls (gw_effects s)"
  by (auto simp add: send_def gw_call_def gw_setTimer_def Let_def split: option.splits)

lemma doConnect_message_calls:
  "message_calls (gw_effects (doConnect_call nonce s)) = message_calls (gw_effects s)"
  by (auto simp add: doConnect_call_def gw_suspend_def nextId_def send_message_calls Let_def
      split: option.splits prod.splits)

lemma handleFrame_res_pending:
  "map_of (pendingRequests t) rid = Some p \<Longrightarrow>
     handleFrame (Some (Res rid ok payload err)) t =
       t\<lparr>pendingRequests := AList.delete rid (pendingRequests t),
         gw_effects := gw_effects t
           @ [if ok then Resolve p payload else Reject p (error_message err)]\<rparr>"
  by (simp add: handleFrame_def gw_call_def Let_def)

lemma handleFrame_res_absent:
  "map_of (pendingRequests t) rid = None \<Longrightarrow>
     handleFrame (Some (Res rid ok payload err)) t = t"
  by (simp add: handleFrame_def)

lemma requestTimeout_pending:
  "map_of (pendingRequests t) rid = Some q \<Longrightarrow>
     requestTimeout rid m p t =
       t\<lparr>pendingRequests := AList.delete rid (pendingRequests t),
         gw_effects := gw_effects t
           @ [Reject p (str ''Request '' @ m @ str '' timed out'')]\<rparr>"
  by (simp add: requestTimeout_def gw_call_def)

lemma requestTimeout_absent:
  "map_of (pendingRequests t) rid = None \<Longrightarrow> requestTimeout rid m p t = t"
  by (simp add: requestTimeout_def)

lemma map_of_delete_same: "map_of (AList.delete k xs) k = None"
  by (simp add: delete_conv')

lemma gw_fire_callback:
  "find (\<lambda>t. gt_id t = i) (gw_timers s) = Some t \<Longrightarrow>
     gw_fire i s =
       (case gt_callback t of
          RequestTimeout rid m p \<Rightarrow>
            requestTimeout rid m p (if gt_repeat t then s else gw_clearTimer i s)
        | Reconnect \<Rightarrow> reconnect (if gt_repeat t then s else gw_clearTimer i s)
        | Tick \<Rightarrow> tick (if gt_repeat t then s else gw_clearTimer i s))"
  by (simp add: gw_fire_def Let_def)

subsection \<open>Invariants\<close>

lemma undecimal_decimal: "undecimal (decimal n) = n"
proof (induction n rule: decimal.induct)
  case (1 n)
  show ?case
  proof (cases "n < 10")
    case True
    then show ?thesis by (simp add: decimal.simps [of n] undecimal_def)
  next
    case False
    with 1 have "undecimal (decimal (n div 10)) = n div 10" by simp
    with False show ?thesis
      by (simp add: decimal.simps [of n] undecimal_def)
  qed
qed

lemma rn_inj: "rn a = rn b \<Longrightarrow> a = b"
proof -
  assume "rn a = rn b"
  then have "decimal a = decimal b" by (simp add: rn_def)
  then have "undecimal (decimal a) = undecimal (decimal b)" by simp
  then show ?thesis by (simp add: undecimal_decimal)
qed

lemma settle_count_append [simp]:
  "settle_count p (xs @ ys) = settle_count p xs + settle_count p ys"
  by (induction p xs rule: settle_count.induct) simp_all

lemma issued_mono: "issued R rid \<Longrightarrow> R \<le> R' \<Longrightarrow> issued R' rid"
proof -
  assume "issued R rid" "R \<le> R'"
  then obtain k where "k \<le> R'" "rid = rn k"
    unfolding issued_def using le_trans by blast
  then show ?thesis unfolding issued_def by blast
qed

lemma not_issued_next: "\<not> issued R (rn (Suc R))"
  by (auto simp add: issued_def dest: rn_inj)

lemma issued_next: "issued (Suc R) (rn (Suc R))"
  by (auto simp add: issued_def)

lemma settle_count_other: "\<not> is_settle e \<Longrightarrow> settle_count p [e] = 0"
  by (cases e) (simp_all add: is_settle_def)

lemma pinv_effect: "pinv P T E NP R \<Longrightarrow> \<not> is_settle e \<Longrightarrow> pinv P T (E @ [e]) NP R"
  by (simp add: pinv_def settle_count_other)

lemma timeout_ok_mono: "timeout_ok P R t \<Longrightarrow> R \<le> R' \<Longrightarrow> timeout_ok P R' t"
  by (auto simp add: timeout_ok_def issued_mono split: gw_callback.splits)

lemma pinv_reqId: "pinv P T E NP R \<Longrightarrow> R \<le> R' \<Longrightarrow> pinv P T E NP R'"
  unfolding pinv_def using timeout_ok_mono issued_mono by blast

lemma pinv_filter: "pinv P T E NP R \<Longrightarrow> pinv P (filter Q T) E NP R"
  by (simp add: pinv_def)

lemma pinv_timer_other:
  "pinv P T E NP R \<Longrightarrow> gt_callback t = Reconnect \<or> gt_callback t = Tick \<Longrightarrow> pinv P (T @ [t]) E NP R"
  by (auto simp add: pinv_def timeout_ok_def)

lemma pinv_clear: "pinv P T E NP R \<Longrightarrow> pinv [] T E NP R"
  by (auto simp add: pinv_def timeout_ok_def split: gw_callback.splits)

lemma pinv_reject_fresh: "pinv P T E NP R \<Longrightarrow> pinv P T (E @ [Reject NP m]) (Suc NP) R"
  by (auto simp add: pinv_def)

lemma map_of_distinct_snd:
  "distinct (map snd P) \<Longrightarrow> (rid, p) \<in> set P \<Longrightarrow> (rid', p) \<in> set P \<Longrightarrow> rid = rid'"
  by (metis distinct_map inj_onD snd_conv fst_conv)

lemma pinv_settle:
  assumes inv: "pinv P T E NP R" and reg: "map_of P rid = Some p"
    and e: "e = Resolve p v \<or> e = Reject p m"
  shows "pinv (AList.delete rid P) T (E @ [e]) NP R"
proof -
  from inv have d: "distinct (map fst P)" "distinct (map snd P)"
    and P: "\<forall>(r, q)\<in>set P. q < NP \<and> settle_count q E = 0 \<and> issued R r"
    and T: "\<forall>t\<in>set T. timeout_ok P R t"
    and E: "\<forall>q. settle_count q E \<le> 1" "\<forall>q\<ge>NP. settle_count q E = 0"
    by (auto simp add: pinv_def)
  from reg have mem: "(rid, p) \<in> set P" by (rule map_of_SomeD)
  with P have p: "p < NP" "settle_count p E = 0" by auto
  have one: "settle_count q [e] = (if q = p then 1 else 0)" for q
    using e by auto
  have sub: "set (AList.delete rid P) \<subseteq> set P"
    by (auto simp add: AList.delete_eq)
  have other: "q \<noteq> p" if "(r, q) \<in> set (AList.delete rid P)" for r q
  proof
    assume "q = p"
    with that sub have "(r, p) \<in> set P" by auto
    with d(2) mem have "r = rid" by (metis map_of_distinct_snd)
    with that show False by (auto simp add: AList.delete_eq)
  qed
  have 1: "distinct (map fst (AList.delete rid P))" using d(1) by (rule distinct_delete)
  have 2: "distinct (map snd (AList.delete rid P))"
    using d(2) by (simp add: AList.delete_eq distinct_map_filter)
  have 3: "\<forall>(r, q)\<in>set (AList.delete rid P).
      q < NP \<and> settle_count q (E @ [e]) = 0 \<and> issued R r"
    using P sub other one by fastforce
  have 4: "\<forall>t\<in>set T. timeout_ok (AList.delete rid P) R t"
    using T by (auto simp add: timeout_ok_def delete_conv' split: gw_callback.splits)
  have 5: "\<forall>q. settle_count q (E @ [e]) \<le> 1"
    using E(1) p(2) one by (auto simp add: le_Suc_eq)
  have 6: "\<forall>q\<ge>NP. settle_count q (E @ [e]) = 0"
    using E(2) p(1) one by auto
  from 1 2 3 4 5 6 show ?thesis by (simp add: pinv_def)
qed

lemma pinv_register:
  assumes inv: "pinv P T E NP R"
  shows "pinv (AList.update (rn (Suc R)) NP P)
           (T @ [\<lparr>gt_id = i, gt_callback = RequestTimeout (rn (Suc R)) m NP,
                  gt_delay = d, gt_repeat = rep\<rparr>])
           (E @ [WsSend w f]) (Suc NP) (Suc R)"
proof -
  from inv have d: "distinct (map fst P)" "distinct (map snd P)"
    and P: "\<forall>(r, q)\<in>set P. q < NP \<and> settle_count q E = 0 \<and> issued R r"
    and T: "\<forall>t\<in>set T. timeout_ok P R t"
    and E: "\<forall>q. settle_count q E \<le> 1" "\<forall>q\<ge>NP. settle_count q E = 0"
    by (auto simp add: pinv_def)
  have fresh: "rn (Suc R) \<notin> fst ` set P"
    using P not_issued_next [of R] by fastforce
  then have upd: "AList.update (rn (Suc R)) NP P = P @ [(rn (Suc R), NP)]"
    by (induction P) auto
  have np: "NP \<notin> snd ` set P" using P by fastforce
  have 1: "distinct (map fst (P @ [(rn (Suc R), NP)]))" using d(1) fresh by simp
  have 2: "distinct (map snd (P @ [(rn (Suc R), NP)]))" using d(2) np by simp
  have 3: "\<forall>(r, q)\<in>set (P @ [(rn (Suc R), NP)]).
      q < Suc NP \<and> settle_count q (E @ [WsSend w f]) = 0 \<and> issued (Suc R) r"
    using P E(2) issued_next [of R] by (auto simp add: less_Suc_eq intro: issued_mono)
  have old: "timeout_ok (P @ [(rn (Suc R), NP)]) (Suc R) t" if "t \<in> set T" for t
  proof -
    from T that have ok: "timeout_ok P R t" by simp
    show ?thesis
    proof (cases "gt_callback t")
      case (RequestTimeout rid m' p)
      with ok have i: "issued R rid" and r: "map_of P rid = None \<or> map_of P rid = Some p"
        by (simp_all add: timeout_ok_def)
      from i not_issued_next [of R] have "rid \<noteq> rn (Suc R)" by auto
      then have "map_of (P @ [(rn (Suc R), NP)]) rid = map_of P rid"
        by (simp add: map_add_def split: option.splits)
      with RequestTimeout i r show ?thesis
        by (simp add: timeout_ok_def issued_mono)
    qed (simp_all add: timeout_ok_def)
  qed
  have new: "timeout_ok (P @ [(rn (Suc R), NP)]) (Suc R)
      \<lparr>gt_id = i, gt_callback = RequestTimeout (rn (Suc R)) m NP, gt_delay = d, gt_repeat = rep\<rparr>"
  proof -
    from fresh have "map_of P (rn (Suc R)) = None" by (simp add: map_of_eq_None_iff)
    then show ?thesis
      by (simp add: timeout_ok_def issued_next map_add_def)
  qed
  have 5: "\<forall>q. settle_count q (E @ [WsSend w f]) \<le> 1" using E(1) by simp
  have 6: "\<forall>q\<ge>Suc NP. settle_count q (E @ [WsSend w f]) = 0" using E(2) by simp
  from 1 2 3 old new 5 6 show ?thesis by (simp add: pinv_def upd)
qed

lemma nextId_rn: "nextId s = (rn (Suc (reqId s)), s\<lparr>reqId := Suc (reqId s)\<rparr>)"
  by (simp add: nextId_def rn_def)

lemma pending_inv_same:
  "pendingRequests s' = pendingRequests s \<Longrightarrow> gw_timers s' = gw_timers s \<Longrightarrow>
   gw_effects s' = gw_effects s \<Longrightarrow> gw_nextPromise s' = gw_nextPromise s \<Longrightarrow>
   reqId s' = reqId s \<Longrightarrow> pending_inv s' = pending_inv s"
  by (simp add: pending_inv_def)

lemma pending_inv_call: "pending_inv s \<Longrightarrow> \<not> is_settle e \<Longrightarrow> pending_inv (gw_call e s)"
  by (simp add: pending_inv_def gw_call_def pinv_effect)

lemma pending_inv_callOnStateChange: "pending_inv s \<Longrightarrow> pending_inv (callOnStateChange st s)"
  by (simp add: callOnStateChange_def pending_inv_call is_settle_def)

lemma pending_inv_callOnMessage: "pending_inv s \<Longrightarrow> pending_inv (callOnMessage t m s)"
  by (simp add: callOnMessage_def pending_inv_call is_settle_def)

lemma pending_inv_clearTimer: "pending_inv s \<Longrightarrow> pending_inv (gw_clearTimer i s)"
  by (simp add: pending_inv_def gw_clearTimer_def pinv_filter)

lemma pending_inv_setTimer:
  "pending_inv s \<Longrightarrow> cb = Reconnect \<or> cb = Tick \<Longrightarrow> pending_inv (gw_setTimer rep cb ms s)"
  by (simp add: pending_inv_def gw_setTimer_def pinv_timer_other)

lemma pending_inv_suspend: "pending_inv (gw_suspend t s) = pending_inv s"
  by (simp add: pending_inv_def gw_suspend_def)

lemma pending_inv_send_next:
  assumes "pending_inv s"
  shows "pending_inv (send \<lparr>req_id = rn (Suc (reqId s)), req_method = m, req_params = ps\<rparr>
                        (s\<lparr>reqId := Suc (reqId s)\<rparr>))"
proof (cases "ws s = None \<or> (\<exists>w. ws s = Some w \<and> sock_readyState w \<noteq> OPEN)")
  case True
  then have "ws (s\<lparr>reqId := Suc (reqId s)\<rparr>) = None
      \<or> (\<exists>w. ws (s\<lparr>reqId := Suc (reqId s)\<rparr>) = Some w \<and> sock_readyState w \<noteq> OPEN)"
    by simp
  from send_not_open [OF this] assms show ?thesis
    by (simp add: pending_inv_def pinv_reject_fresh pinv_reqId)
next
  case False
  then obtain w where w: "ws s = Some w" "sock_readyState w = OPEN" by auto
  then have "ws (s\<lparr>reqId := Suc (reqId s)\<rparr>) = Some w" by simp
  from send_open [OF this w(2)] assms show ?thesis
    by (simp add: pending_inv_def pinv_register)
qed

lemma pending_inv_doConnect_call: "pending_inv s \<Longrightarrow> pending_inv (doConnect_call nonce s)"
  by (simp add: doConnect_call_def nextId_rn pending_inv_suspend pending_inv_send_next
      split: option.splits)

lemma pending_inv_sendMessage: "pending_inv s \<Longrightarrow> pending_inv (sendMessage m s)"
  by (simp add: sendMessage_def nextId_rn pending_inv_send_next)

lemma pending_inv_tick: "pending_inv s \<Longrightarrow> pending_inv (tick s)"
  by (simp add: tick_def nextId_rn pending_inv_send_next split: option.splits)

lemma pending_inv_handleEvent: "pending_inv s \<Longrightarrow> pending_inv (handleEvent e p s)"
  by (simp add: handleEvent_def pending_inv_callOnMessage pending_inv_doConnect_call Let_def)

lemma pending_inv_handleFrame: "pending_inv s \<Longrightarrow> pending_inv (handleFrame f s)"
proof (cases f)
  case None
  assume "pending_inv s"
  with None show ?thesis by (simp add: handleFrame_def)
next
  case (Some fr)
  assume inv: "pending_inv s"
  show ?thesis
  proof (cases fr)
    case (Res rid ok payload err)
    show ?thesis
    proof (cases "map_of (pendingRequests s) rid")
      case None
      with Some Res inv show ?thesis by (simp add: handleFrame_def)
    next
      case (Some p)
      from handleFrame_res_pending [OF this, of ok payload err] inv Some
        pinv_settle [of "pendingRequests s" "gw_timers s" "gw_effects s" "gw_nextPromise s"
          "reqId s" rid p _ payload "error_message err"]
      show ?thesis using \<open>f = Some fr\<close> Res
        by (simp add: pending_inv_def)
    qed
  next
    case (Event e p)
    with Some inv show ?thesis by (simp add: handleFrame_def pending_inv_handleEvent)
  next
    case OtherFrame
    with Some inv show ?thesis by (simp add: handleFrame_def)
  qed
qed

lemma pending_inv_connect: "pending_inv s \<Longrightarrow> pending_inv (connect c s)"
proof -
  assume inv: "pending_inv s"
  have "pending_inv (s\<lparr>config := Some c, isConnected := False\<rparr>) = pending_inv s"
    by (rule pending_inv_same) simp_all
  with inv have 1: "pending_inv (callOnStateChange Connecting (s\<lparr>config := Some c, isConnected := False\<rparr>))"
    by (simp add: pending_inv_callOnStateChange)
  show ?thesis
    unfolding connect_def Let_def
    using 1 by (auto simp add: pending_inv_def gw_call_def pinv_effect is_settle_def split: option.splits)
qed

lemma pending_inv_disconnect: "pending_inv s \<Longrightarrow> pending_inv (disconnect s)"
  by (auto simp add: disconnect_def Let_def pending_inv_def gw_clearTimer_def gw_call_def
      is_settle_def intro!: pinv_clear pinv_effect pinv_filter split: option.splits)

lemma pending_inv_ws_onclose: "pending_inv s \<Longrightarrow> pending_inv (ws_onclose n s)"
  by (auto simp add: ws_onclose_def scheduleReconnect_def set_readyState_def Let_def
      callOnStateChange_def pending_inv_def gw_clearTimer_def gw_setTimer_def gw_call_def
      is_settle_def intro!: pinv_timer_other pinv_effect pinv_filter split: option.splits)

lemma pending_inv_requestTimeout:
  assumes "pending_inv s" "timeout_ok (pendingRequests s) (reqId s) t"
    "gt_callback t = RequestTimeout rid m p"
  shows "pending_inv (requestTimeout rid m p s)"
proof (cases "map_of (pendingRequests s) rid")
  case None
  with assms(1) show ?thesis by (simp add: requestTimeout_def)
next
  case (Some q)
  with assms(2,3) have "map_of (pendingRequests s) rid = Some p"
    by (simp add: timeout_ok_def)
  from requestTimeout_pending [OF this, of m p] assms(1) this
    pinv_settle [of "pendingRequests s" "gw_timers s" "gw_effects s" "gw_nextPromise s"
      "reqId s" rid p _ JNull "str ''Request '' @ m @ str '' timed out''"]
  show ?thesis by (simp add: pending_inv_def)
qed

lemma pending_inv_reconnect: "pending_inv s \<Longrightarrow> pending_inv (reconnect s)"
proof -
  assume inv: "pending_inv s"
  have "pending_inv (s\<lparr>reconnectTimer := None\<rparr>) = pending_inv s"
    by (rule pending_inv_same) simp_all
  with inv show ?thesis
    by (simp add: reconnect_def Let_def pending_inv_connect split: option.splits)
qed

lemma pending_inv_gw_fire: "pending_inv s \<Longrightarrow> pending_inv (gw_fire i s)"
proof (cases "find (\<lambda>t. gt_id t = i) (gw_timers s)")
  case None
  assume "pending_inv s"
  with None show ?thesis by (simp add: gw_fire_def)
next
  case (Some t)
  assume inv: "pending_inv s"
  let ?s1 = "if gt_repeat t then s else gw_clearTimer i s"
  from Some have "t \<in> set (gw_timers s)"
    by (auto simp add: find_Some_iff in_set_conv_nth)
  with inv have ok: "timeout_ok (pendingRequests s) (reqId s) t"
    by (simp add: pending_inv_def pinv_def)
  have 1: "pending_inv ?s1" using inv by (simp add: pending_inv_clearTimer)
  have 2: "pendingRequests ?s1 = pendingRequests s" "reqId ?s1 = reqId s"
    by (simp_all add: gw_clearTimer_def)
  show ?thesis
  proof (cases "gt_callback t")
    case (RequestTimeout rid m p)
    from pending_inv_requestTimeout [OF 1 _ RequestTimeout] ok 2
    have "pending_inv (requestTimeout rid m p ?s1)" by simp
    with Some RequestTimeout show ?thesis by (simp add: gw_fire_callback)
  next
    case Reconnect
    with Some 1 show ?thesis by (simp add: gw_fire_callback pending_inv_reconnect)
  next
    case Tick
    with Some 1 show ?thesis by (simp add: gw_fire_callback pending_inv_tick)
  qed
qed

lemma pending_inv_doConnect_connected:
  "pending_inv s \<Longrightarrow> pending_inv (doConnect_connected payload s)"
proof -
  assume inv: "pending_inv s"
  let ?s1 = "callOnStateChange Connected (s\<lparr>isConnected := True\<rparr>)"
  let ?s2 = "case tickTimer ?s1 of None \<Rightarrow> ?s1 | Some i \<Rightarrow> gw_clearTimer i ?s1"
  let ?s3 = "(gw_setTimer True Tick (tickInterval payload) ?s2)\<lparr>tickTimer := Some (gw_nextTimer ?s2)\<rparr>"
  have "pending_inv (s\<lparr>isConnected := True\<rparr>) = pending_inv s"
    by (rule pending_inv_same) simp_all
  with inv have 1: "pending_inv ?s1" by (simp add: pending_inv_callOnStateChange)
  then have 2: "pending_inv ?s2" by (simp add: pending_inv_clearTimer split: option.splits)
  then have "pending_inv (gw_setTimer True Tick (tickInterval payload) ?s2)"
    by (simp add: pending_inv_setTimer)
  moreover have "pending_inv ?s3 = pending_inv (gw_setTimer True Tick (tickInterval payload) ?s2)"
    by (rule pending_inv_same) simp_all
  ultimately have 3: "pending_inv ?s3" by simp
  show ?thesis
    unfolding doConnect_connected_def Let_def
    using pending_inv_send_next [OF 3] by (simp add: nextId_rn pending_inv_suspend)
qed

lemma pending_inv_continue: "pending_inv s \<Longrightarrow> pending_inv (continue n s)"
proof -
  assume inv: "pending_inv s"
  have "pending_inv (s\<lparr>gw_tasks := ts\<rparr>) = pending_inv s" for ts
    by (rule pending_inv_same) simp_all
  with inv show ?thesis
    by (simp add: continue_def gw_resume_def doConnect_failed_def pending_inv_callOnStateChange
        pending_inv_doConnect_connected split: option.splits gw_task.splits)
qed

lemma pending_inv_small:
  "pending_inv (ws_onopen n s) = pending_inv s"
  "pending_inv (onMessage_register s) = pending_inv s"
  "pending_inv (onStateChange_register s) = pending_inv s"
  by (rule pending_inv_same;
      simp add: ws_onopen_def set_readyState_def onMessage_register_def
        onStateChange_register_def split: option.splits)+

lemma pending_inv_step: "pending_inv s \<Longrightarrow> pending_inv (gw_step e s)"
  by (cases e)
     (simp_all add: gw_step_def pending_inv_connect pending_inv_disconnect pending_inv_sendMessage
        pending_inv_handleFrame pending_inv_ws_onclose pending_inv_gw_fire pending_inv_continue
        pending_inv_small pending_inv_callOnStateChange ws_onmessage_def ws_onerror_def)

lemma pending_inv_init: "pending_inv gw_init"
  by (simp add: pending_inv_def pinv_def gw_init_def)

lemma pending_inv_run: "pending_inv s \<Longrightarrow> pending_inv (gw_run es s)"
  by (induction es arbitrary: s) (simp_all add: pending_inv_step)

lemma settled_at_most_once: "settle_count p (gw_effects (gw_run es gw_init)) \<le> 1"
  using pending_inv_run [OF pending_inv_init, of es] by (simp add: pending_inv_def pinv_def)

lemma reconnect_ids_simps [simp]:
  "reconnect_ids [] = []"
  "reconnect_ids (ts @ us) = reconnect_ids ts @ reconnect_ids us"
  "reconnect_ids (t # ts) = (if gt_callback t = Reconnect then [gt_id t] else []) @ reconnect_ids ts"
  "reconnect_ids (filter (\<lambda>t. gt_id t \<noteq> i) ts) = filter (\<lambda>j. j \<noteq> i) (reconnect_ids ts)"
  by (simp_all add: reconnect_ids_def filter_map comp_def conj_commute)

lemma not_reconnect_id:
  assumes "distinct (map gt_id ts)" "t \<in> set ts" "gt_callback t \<noteq> Reconnect"
  shows "gt_id t \<notin> set (reconnect_ids ts)"
proof
  assume "gt_id t \<in> set (reconnect_ids ts)"
  then obtain u where u: "u \<in> set ts" "gt_callback u = Reconnect" "gt_id u = gt_id t"
    by (auto simp add: reconnect_ids_def)
  from assms(1) have "inj_on gt_id (set ts)" by (simp add: distinct_map)
  with u assms(2) have "u = t" by (auto dest: inj_onD)
  with u assms(3) show False by simp
qed

lemma timers_inv_clear_other:
  assumes "timers_inv s" "t \<in> set (gw_timers s)" "gt_callback t \<noteq> Reconnect"
  shows "timers_inv (gw_clearTimer (gt_id t) s)"
proof -
  from assms(1) have "distinct (map gt_id (gw_timers s))"
    by (simp add: timers_inv_def)
  then have "gt_id t \<notin> set (reconnect_ids (gw_timers s))"
    using assms(2,3) by (rule not_reconnect_id)
  then have "filter (\<lambda>j. j \<noteq> gt_id t) (reconnect_ids (gw_timers s)) = reconnect_ids (gw_timers s)"
    by (auto simp add: filter_id_conv)
  with assms(1) show ?thesis
    by (auto simp add: timers_inv_def gw_clearTimer_def distinct_map_filter)
qed

lemma timers_inv_init: "timers_inv gw_init"
  by (simp add: timers_inv_def gw_init_def)

lemma reconnect_lt: 
  assumes "timers_inv s" "reconnectTimer s = Some j" shows "j < gw_nextTimer s"
proof -
  from assms have "j \<in> set (reconnect_ids (gw_timers s))" by (simp add: timers_inv_def)
  then obtain t where "t \<in> set (gw_timers s)" "gt_id t = j"
    by (auto simp add: reconnect_ids_def)
  with assms show ?thesis by (auto simp add: timers_inv_def)
qed

lemma timers_inv_send: "timers_inv s \<Longrightarrow> timers_inv (send frame s)"
  by (auto simp add: timers_inv_def send_def gw_call_def gw_setTimer_def
      Let_def less_Suc_eq split: option.splits)

lemma timers_inv_reqId: "timers_inv (s\<lparr>reqId := n\<rparr>) = timers_inv s"
  by (simp add: timers_inv_def)

lemma timers_inv_tasks: "timers_inv (s\<lparr>gw_tasks := n\<rparr>) = timers_inv s"
  by (simp add: timers_inv_def)

lemma timers_inv_effects: "timers_inv (s\<lparr>gw_effects := n\<rparr>) = timers_inv s"
  by (simp add: timers_inv_def)

lemma timers_inv_pending: "timers_inv (s\<lparr>pendingRequests := n\<rparr>) = timers_inv s"
  by (simp add: timers_inv_def)

lemmas timers_inv_upd = timers_inv_reqId timers_inv_tasks timers_inv_effects timers_inv_pending

lemma timers_inv_doConnect_call: "timers_inv s \<Longrightarrow> timers_inv (doConnect_call nonce s)"
  by (simp add: doConnect_call_def nextId_def gw_suspend_def timers_inv_upd timers_inv_send
      Let_def split: option.splits)

lemma timers_inv_sendMessage: "timers_inv s \<Longrightarrow> timers_inv (sendMessage m s)"
  by (simp add: sendMessage_def nextId_def timers_inv_send timers_inv_upd Let_def)

lemma timers_inv_tick: "timers_inv s \<Longrightarrow> timers_inv (tick s)"
  by (simp add: tick_def nextId_def timers_inv_send timers_inv_upd Let_def split: option.splits)

lemma timers_inv_handleEvent: "timers_inv s \<Longrightarrow> timers_inv (handleEvent e p s)"
  by (simp add: handleEvent_def callOnMessage_def gw_call_def timers_inv_doConnect_call
      timers_inv_upd Let_def)

lemma timers_inv_handleFrame: "timers_inv s \<Longrightarrow> timers_inv (handleFrame f s)"
  by (simp add: handleFrame_def gw_call_def timers_inv_handleEvent timers_inv_upd Let_def
      split: option.splits GatewayFrame.splits)

lemma timers_inv_connect: "timers_inv s \<Longrightarrow> timers_inv (connect c s)"
  by (auto simp add: connect_def callOnStateChange_def gw_call_def Let_def timers_inv_def
      split: option.splits)

lemma timers_inv_disconnect: "timers_inv s \<Longrightarrow> timers_inv (disconnect s)"
  by (auto simp add: disconnect_def gw_call_def gw_clearTimer_def Let_def timers_inv_def
      distinct_map_filter split: option.splits if_splits)

lemma timers_inv_ws_onclose: "timers_inv s \<Longrightarrow> timers_inv (ws_onclose n s)"
  by (auto simp add: ws_onclose_def scheduleReconnect_def set_readyState_def
      callOnStateChange_def gw_call_def gw_setTimer_def gw_clearTimer_def Let_def
      timers_inv_def less_Suc_eq distinct_map_filter split: option.splits if_splits)

lemma timers_inv_requestTimeout: "timers_inv s \<Longrightarrow> timers_inv (requestTimeout rid m p s)"
  by (simp add: requestTimeout_def gw_call_def timers_inv_upd)

lemma timers_inv_gw_fire: "timers_inv s \<Longrightarrow> timers_inv (gw_fire i s)"
proof (cases "find (\<lambda>t. gt_id t = i) (gw_timers s)")
  case None
  assume "timers_inv s"
  with None show ?thesis by (simp add: gw_fire_def)
next
  case (Some t)
  assume inv: "timers_inv s"
  from Some have t: "t \<in> set (gw_timers s)" "gt_id t = i"
    by (auto simp add: find_Some_iff in_set_conv_nth)
  show ?thesis
  proof (cases "gt_callback t")
    case (RequestTimeout rid m p)
    have "timers_inv (if gt_repeat t then s else gw_clearTimer i s)"
      using inv t RequestTimeout timers_inv_clear_other [of s t] by auto
    with Some RequestTimeout show ?thesis
      by (simp add: gw_fire_def timers_inv_requestTimeout Let_def)
  next
    case Tick
    have "timers_inv (if gt_repeat t then s else gw_clearTimer i s)"
      using inv t Tick timers_inv_clear_other [of s t] by auto
    with Some Tick show ?thesis
      by (simp add: gw_fire_def timers_inv_tick Let_def)
  next
    case Reconnect
    from t Reconnect have "i \<in> set (reconnect_ids (gw_timers s))"
      by (auto simp add: reconnect_ids_def)
    moreover from inv have "reconnect_ids (gw_timers s)
        = (if reconnectTimer s = None then [] else [the (reconnectTimer s)])"
      by (simp add: timers_inv_def)
    ultimately have r: "reconnectTimer s = Some i"
      by (cases "reconnectTimer s") simp_all
    from inv t Reconnect have nr: "\<not> gt_repeat t"
      by (simp add: timers_inv_def)
    have "timers_inv ((gw_clearTimer i s)\<lparr>reconnectTimer := None\<rparr>)"
      using inv r by (auto simp add: timers_inv_def gw_clearTimer_def distinct_map_filter)
    then have "timers_inv (reconnect (gw_clearTimer i s))"
      by (simp add: reconnect_def timers_inv_connect Let_def split: option.splits)
    with Some Reconnect nr show ?thesis
      by (simp add: gw_fire_def Let_def)
  qed
qed

lemma timers_inv_doConnect_connected:
  "timers_inv s \<Longrightarrow> timers_inv (doConnect_connected payload s)"
proof -
  assume inv: "timers_inv s"
  let ?s1 = "callOnStateChange Connected (s\<lparr>isConnected := True\<rparr>)"
  let ?s2 = "case tickTimer ?s1 of None \<Rightarrow> ?s1 | Some i \<Rightarrow> gw_clearTimer i ?s1"
  let ?s3 = "(gw_setTimer True Tick (tickInterval payload) ?s2)\<lparr>tickTimer := Some (gw_nextTimer ?s2)\<rparr>"
  have 2: "timers_inv ?s2 \<and> gw_nextTimer ?s2 = gw_nextTimer s \<and> reconnectTimer ?s2 = reconnectTimer s"
    using inv by (auto simp add: callOnStateChange_def gw_call_def gw_clearTimer_def timers_inv_def
        distinct_map_filter split: option.splits)
  have lt: "reconnectTimer s \<noteq> Some (gw_nextTimer s)"
    using reconnect_lt [OF inv] by auto
  have 3: "timers_inv ?s3"
    using 2 lt by (auto simp add: gw_setTimer_def timers_inv_def less_Suc_eq)
  show ?thesis
    using 3 by (simp add: doConnect_connected_def nextId_def gw_suspend_def timers_inv_send
        timers_inv_upd Let_def)
qed

lemma timers_inv_continue: "timers_inv s \<Longrightarrow> timers_inv (continue n s)"
  by (simp add: continue_def gw_resume_def doConnect_failed_def callOnStateChange_def gw_call_def
      timers_inv_doConnect_connected timers_inv_upd split: option.splits gw_task.splits)

lemma timers_inv_small:
  "timers_inv s \<Longrightarrow> timers_inv (ws_onopen n s)"
  "timers_inv s \<Longrightarrow> timers_inv (ws_onerror n s)"
  "timers_inv s \<Longrightarrow> timers_inv (onMessage_register s)"
  "timers_inv s \<Longrightarrow> timers_inv (onStateChange_register s)"
  by (auto simp add: ws_onerror_def ws_onopen_def set_readyState_def callOnStateChange_def
      gw_call_def onMessage_register_def onStateChange_register_def timers_inv_def
      split: option.splits)

lemma timers_inv_step: "timers_inv s \<Longrightarrow> timers_inv (gw_step e s)"
  by (cases e)
     (simp_all add: gw_step_def timers_inv_connect timers_inv_disconnect timers_inv_sendMessage
        timers_inv_handleFrame timers_inv_ws_onclose timers_inv_gw_fire timers_inv_continue
        timers_inv_small ws_onmessage_def)

lemma timers_inv_run: "timers_inv s \<Longrightarrow> timers_inv (gw_run es s)"
  by (induction es arbitrary: s) (simp_all add: timers_inv_step)

lemma one_reconnect_timer:
  assumes "timers_inv s"
  shows "map gt_delay (filter (\<lambda>t. gt_callback t = Reconnect) (gw_timers (ws_onclose n s)))
         = [JNumber 5000]"
proof -
  let ?s = "ws_onclose n s"
  let ?rs = "filter (\<lambda>t. gt_callback t = Reconnect) (gw_timers ?s)"
  from assms have inv: "timers_inv ?s" by (rule timers_inv_ws_onclose)
  moreover have "reconnectTimer ?s \<noteq> None"
    by (simp add: ws_onclose_def scheduleReconnect_def gw_setTimer_def Let_def)
  ultimately have "length (reconnect_ids (gw_timers ?s)) = 1"
    by (simp add: timers_inv_def)
  then have "length ?rs = 1" by (simp add: reconnect_ids_def)
  then obtain t where t: "?rs = [t]" by (cases ?rs) simp_all
  then have "t \<in> set ?rs" by simp
  then have "t \<in> set (gw_timers ?s)" "gt_callback t = Reconnect" by simp_all
  with inv have "gt_delay t = JNumber 5000" by (simp add: timers_inv_def)
  with t show ?thesis by simp
qed

subsection \<open>Claims\<close>

text \<open>
  C9. \<open>send\<close> without a socket, or with a socket that is not open, rejects the promise
  it returns with ``WebSocket not connected'' and does nothing else: no registration, no
  frame on the socket, no timer.
\<close>

theorem send_not_connected:
  assumes "ws s = None \<or> (\<exists>w. ws s = Some w \<and> sock_readyState w \<noteq> OPEN)"
  shows "gw_effects (send frame s)
           = gw_effects s @ [Reject (gw_nextPromise s) (str ''WebSocket not connected'')]
    \<and> pendingRequests (send frame s) = pendingRequests s
    \<and> gw_timers (send frame s) = gw_timers s
    \<and> send frame s =
         s\<lparr>gw_nextPromise := Suc (gw_nextPromise s),
           gw_effects := gw_effects s
             @ [Reject (gw_nextPromise s) (str ''WebSocket not connected'')]\<rparr>"
  by (simp add: send_not_open [OF assms])


theorem send_not_connected_witness:
  "ws gw_init = None
   \<and> gw_effects (send \<lparr>req_id = str ''rn-1'', req_method = str ''tick'', req_params = JObject []\<rparr> gw_init)
       = [Reject 0 (str ''WebSocket not connected'')]
   \<and> pendingRequests (send \<lparr>req_id = str ''rn-1'', req_method = str ''tick'', req_params = JObject []\<rparr> gw_init) = []
   \<and> (\<exists>w. ws g_closed = Some w \<and> sock_readyState w \<noteq> OPEN)
   \<and> pendingRequests (send \<lparr>req_id = str ''rn-4'', req_method = str ''tick'', req_params = JObject []\<rparr> g_closed)
       = pendingRequests g_closed
   \<and> gw_timers (send \<lparr>req_id = str ''rn-4'', req_method = str ''tick'', req_params = JObject []\<rparr> g_closed)
       = gw_timers g_closed"
proof -
  have a: "ws gw_init = None" "gw_effects gw_init = []" "pendingRequests gw_init = []"
    "gw_nextPromise gw_init = 0"
    by (simp_all add: gw_init_def)
  have b: "\<exists>w. ws g_closed = Some w \<and> sock_readyState w \<noteq> OPEN"
    by (simp add: g_closed_eq)
  from send_not_connected [of gw_init] send_not_connected [of g_closed] a b
  show ?thesis by simp
qed

text \<open>
  C4. \<open>send\<close> on an open socket registers the promise under the request id and arms the
  30 s timeout. Wherever the id is registered, the response frame removes the registration
  and settles the promise with one call, and the timeout removes it and rejects the promise
  with one call; after either, the other finds no registration and changes nothing, as does
  either of them wherever the id is not registered. Whatever happens to the client, in
  whatever order, no promise is settled by more than one call.
\<close>

theorem pending_request_settled_once:
  "(ws s = Some w \<and> sock_readyState w = OPEN \<longrightarrow>
      map_of (pendingRequests (send frame s)) (req_id frame) = Some (gw_nextPromise s)
      \<and> gw_timers (send frame s) = gw_timers s @
          [\<lparr>gt_id = gw_nextTimer s,
            gt_callback = RequestTimeout (req_id frame) (req_method frame) (gw_nextPromise s),
            gt_delay = JNumber 30000, gt_repeat = False\<rparr>])
   \<and> (find (\<lambda>x. gt_id x = i) (gw_timers t) = Some tm
        \<and> gt_callback tm = RequestTimeout rid m p \<and> \<not> gt_repeat tm \<longrightarrow>
      gw_fire i t = requestTimeout rid m p (gw_clearTimer i t))
   \<and> (map_of (pendingRequests t) rid = Some p \<longrightarrow>
      handleFrame (Some (Res rid ok payload err)) t =
        t\<lparr>pendingRequests := AList.delete rid (pendingRequests t),
          gw_effects := gw_effects t
            @ [if ok then Resolve p payload else Reject p (error_message err)]\<rparr>
      \<and> requestTimeout rid m p (handleFrame (Some (Res rid ok payload err)) t)
          = handleFrame (Some (Res rid ok payload err)) t
      \<and> requestTimeout rid m p t =
        t\<lparr>pendingRequests := AList.delete rid (pendingRequests t),
          gw_effects := gw_effects t
            @ [Reject p (str ''Request '' @ m @ str '' timed out'')]\<rparr>
      \<and> handleFrame (Some (Res rid ok payload err)) (requestTimeout rid m p t)
          = requestTimeout rid m p t)
   \<and> (map_of (pendingRequests t) rid = None \<longrightarrow>
      requestTimeout rid m p t = t
      \<and> handleFrame (Some (Res rid ok payload err)) t = t)
   \<and> settle_count q (gw_effects (gw_run es gw_init)) \<le> 1"
proof -
  have "map_of (pendingRequests t) rid = Some p \<longrightarrow>
      requestTimeout rid m p (handleFrame (Some (Res rid ok payload err)) t)
          = handleFrame (Some (Res rid ok payload err)) t"
    by (simp add: handleFrame_res_pending requestTimeout_absent map_of_delete_same)
  moreover have "map_of (pendingRequests t) rid = Some p \<longrightarrow>
      handleFrame (Some (Res rid ok payload err)) (requestTimeout rid m p t)
          = requestTimeout rid m p t"
    by (simp add: requestTimeout_pending handleFrame_res_absent map_of_delete_same)
  moreover have "ws s = Some w \<and> sock_readyState w = OPEN \<longrightarrow>
      map_of (pendingRequests (send frame s)) (req_id frame) = Some (gw_nextPromise s)"
    by (simp add: send_open update_conv')
  moreover have "settle_count q (gw_effects (gw_run es gw_init)) \<le> 1"
    by (rule settled_at_most_once)
  ultimately show ?thesis
    by (simp add: send_open handleFrame_res_pending handleFrame_res_absent
        requestTimeout_pending requestTimeout_absent gw_fire_callback)
qed


theorem pending_request_settled_once_witness:
  "ws g_connected = Some \<lparr>sock_id = 0, sock_url = url cfg, sock_readyState = OPEN\<rparr>
   \<and> map_of (pendingRequests
         (send \<lparr>req_id = str ''rn-3'', req_method = str ''chat.send'', req_params = JNull\<rparr>
            g_connected)) (str ''rn-3'') = Some (gw_nextPromise g_connected)
   \<and> map_of (pendingRequests g_sending) (str ''rn-3'') = Some 2
   \<and> gw_fire 4 g_sending
       = requestTimeout (str ''rn-3'') (str ''chat.send'') 2 (gw_clearTimer 4 g_sending)
   \<and> requestTimeout (str ''rn-3'') (str ''chat.send'') 2
         (handleFrame (Some (Res (str ''rn-3'') True JNull None)) g_sending)
       = handleFrame (Some (Res (str ''rn-3'') True JNull None)) g_sending
   \<and> handleFrame (Some (Res (str ''rn-3'') True JNull None))
         (requestTimeout (str ''rn-3'') (str ''chat.send'') 2 g_sending)
       = requestTimeout (str ''rn-3'') (str ''chat.send'') 2 g_sending
   \<and> map_of (pendingRequests g_open) (str ''rn-3'') = None
   \<and> requestTimeout (str ''rn-3'') (str ''chat.send'') 2 g_open = g_open
   \<and> handleFrame (Some (Res (str ''rn-3'') True JNull None)) g_open = g_open"
proof -
  let ?w = "\<lparr>sock_id = 0, sock_url = url cfg, sock_readyState = OPEN\<rparr>"
  let ?f = "\<lparr>req_id = str ''rn-3'', req_method = str ''chat.send'', req_params = JNull\<rparr>"
  let ?tm = "\<lparr>gt_id = 4, gt_callback = RequestTimeout (str ''rn-3'') (str ''chat.send'') 2,
               gt_delay = JNumber 30000, gt_repeat = False\<rparr>"
  have a: "ws g_connected = Some ?w" "sock_readyState ?w = OPEN"
    by (simp_all add: g_connected_eq g_open_eq)
  have b: "find (\<lambda>x. gt_id x = 4) (gw_timers g_sending) = Some ?tm"
    "gt_callback ?tm = RequestTimeout (str ''rn-3'') (str ''chat.send'') 2" "\<not> gt_repeat ?tm"
    "map_of (pendingRequests g_sending) (str ''rn-3'') = Some 2"
    by (simp_all add: g_sending_eq g_connected_eq g_open_eq)
  have c: "map_of (pendingRequests g_open) (str ''rn-3'') = None"
    by (simp add: g_open_eq)
  have d: "req_id ?f = str ''rn-3''"
    by simp
  note r = pending_request_settled_once
  from r [of g_connected ?w ?f 4 g_sending ?tm "str ''rn-3''" "str ''chat.send''" 2 True JNull None 0 "[]"]
    r [of g_connected ?w ?f 4 g_open ?tm "str ''rn-3''" "str ''chat.send''" 2 True JNull None 0 "[]"]
    a b c
  show ?thesis unfolding d by blast
qed

text \<open>
  C2 (as amended). When a socket closes, the client clears its connected flag, cancels the
  keepalive timer, reports Disconnected to the state handler, and arms a reconnection
  timer of 5000 ms unless one is armed already. It leaves the pending registrations as
  they are and settles no promise: each request is left to its own 30 s timeout. When the
  reconnection timer fires while not connected, the client connects with the
  configuration it holds then. Whatever happened to the client before, exactly one
  reconnection timer, of 5000 ms, is armed after the close.
\<close>

theorem ws_onclose_effects:
  "\<not> isConnected (ws_onclose n s)
   \<and> tickTimer (ws_onclose n s) = None
   \<and> pendingRequests (ws_onclose n s) = pendingRequests s
   \<and> gw_effects (ws_onclose n s)
       = gw_effects s @ (if onStateChangeHandler s then [StateChange Disconnected] else [])
   \<and> gw_timers (ws_onclose n s)
       = filter (\<lambda>t. Some (gt_id t) \<noteq> tickTimer s) (gw_timers s)
         @ (if reconnectTimer s = None
            then [\<lparr>gt_id = gw_nextTimer s, gt_callback = Reconnect,
                   gt_delay = JNumber 5000, gt_repeat = False\<rparr>]
            else [])
   \<and> reconnectTimer (ws_onclose n s)
       = (if reconnectTimer s = None then Some (gw_nextTimer s) else reconnectTimer s)
   \<and> config (ws_onclose n s) = config s
   \<and> (config u = Some c \<and> \<not> isConnected u \<longrightarrow>
        reconnect u = connect c (u\<lparr>reconnectTimer := None\<rparr>))
   \<and> map gt_delay (filter (\<lambda>t. gt_callback t = Reconnect)
          (gw_timers (ws_onclose n (gw_run es gw_init)))) = [JNumber 5000]"
proof -
  have "map gt_delay (filter (\<lambda>t. gt_callback t = Reconnect)
          (gw_timers (ws_onclose n (gw_run es gw_init)))) = [JNumber 5000]"
    by (rule one_reconnect_timer) (rule timers_inv_run [OF timers_inv_init])
  then show ?thesis
    by (auto simp add: ws_onclose_def set_readyState_def gw_clearTimer_def callOnStateChange_def
        gw_call_def scheduleReconnect_def gw_setTimer_def reconnect_def Let_def
        split: option.splits)
qed

theorem ws_onclose_effects_witness:
  "g_closed = ws_onclose 0 g_sending
   \<and> onStateChangeHandler g_sending \<and> reconnectTimer g_sending = None
   \<and> \<not> isConnected g_closed
   \<and> tickTimer g_closed = None
   \<and> gw_effects g_closed = gw_effects g_sending @ [StateChange Disconnected]
   \<and> reconnectTimer g_closed = Some 5
   \<and> config g_closed = Some cfg
   \<and> reconnect g_closed = connect cfg (g_closed\<lparr>reconnectTimer := None\<rparr>)"
proof -
  have a: "g_closed = ws_onclose 0 g_sending"
    by (simp add: g_closed_def g_sending_def gw_run_append gw_step_def)
  have b: "onStateChangeHandler g_sending" "reconnectTimer g_sending = None"
    "gw_nextTimer g_sending = 5" "config g_sending = Some cfg"
    by (simp_all add: g_sending_eq g_connected_eq g_open_eq)
  have c: "config g_closed = Some cfg \<and> \<not> isConnected g_closed"
    by (simp add: g_closed_eq g_sending_eq g_connected_eq g_open_eq)
  from ws_onclose_effects [of 0 g_sending g_closed cfg "[]"] a b c
  show ?thesis by simp
qed

text \<open>
  C2 as stated fails: the socket closes with two requests pending; both registrations
  are still there afterwards, and the only call made is the one to the state handler: no
  promise is rejected.
\<close>

theorem ws_onclose_keeps_pending:
  "pendingRequests g_sending = [(str ''rn-2'', 1), (str ''rn-3'', 2)]
   \<and> pendingRequests (ws_onclose 0 g_sending) = [(str ''rn-2'', 1), (str ''rn-3'', 2)]
   \<and> gw_effects (ws_onclose 0 g_sending) = gw_effects g_sending @ [StateChange Disconnected]"
proof -
  have "ws_onclose 0 g_sending = g_closed"
    by (simp add: g_closed_def g_sending_def gw_run_append gw_step_def)
  then show ?thesis
    by (simp add: g_closed_eq g_sending_eq)
qed

text \<open>
  C7 (as amended). With a message handler registered: a \<open>chat.reply\<close> event calls it
  once, with the payload's text, exactly when that text is truthy (the role is not looked
  at); a \<open>chat\<close> event calls it once, with the payload's text, exactly when the role is
  \<open>assistant\<close> and the text is truthy, except that for a \<open>chat\<close> event of type
  \<open>message\<close> with role \<open>assistant\<close> the number of calls is not promised: the handler is
  called with the payload's text once or twice when the text is truthy and at most
  once when it is not. A \<open>chat\<close> event whose role is not \<open>assistant\<close> changes nothing,
  whatever its type; these events change nothing but the calls made. No other event
  calls the handler, and \<open>chat.stream\<close> and unknown events change nothing at all.
\<close>

theorem handleEvent_message_calls:
  assumes "onMessageHandler s"
  shows "(event = str ''chat.reply'' \<longrightarrow>
       message_calls (gw_effects (handleEvent event payload s))
         = message_calls (gw_effects s)
           @ (if truthy_json (field ''text'' payload)
              then [(field ''text'' payload, field ''messageId'' payload)] else [])
       \<and> handleEvent event payload s
           = (if truthy_json (field ''text'' payload)
              then s\<lparr>gw_effects := gw_effects s
                     @ [MessageHandler (field ''text'' payload) (field ''messageId'' payload)]\<rparr>
              else s))
   \<and> (event = str ''chat''
        \<and> \<not> (field ''type'' payload = JString (str ''message'')
             \<and> field ''role'' payload = JString (str ''assistant'')) \<longrightarrow>
       message_calls (gw_effects (handleEvent event payload s))
         = message_calls (gw_effects s)
           @ (if field ''role'' payload = JString (str ''assistant'')
                 \<and> truthy_json (field ''text'' payload)
              then [(field ''text'' payload, field ''messageId'' payload)] else [])
       \<and> handleEvent event payload s
           = (if field ''role'' payload = JString (str ''assistant'')
                 \<and> truthy_json (field ''text'' payload)
              then s\<lparr>gw_effects := gw_effects s
                     @ [MessageHandler (field ''text'' payload) (field ''messageId'' payload)]\<rparr>
              else s))
   \<and> (event = str ''chat''
        \<and> field ''type'' payload = JString (str ''message'')
        \<and> field ''role'' payload = JString (str ''assistant'') \<longrightarrow>
       (truthy_json (field ''text'' payload) \<longrightarrow>
          message_calls (gw_effects (handleEvent event payload s))
            = message_calls (gw_effects s)
              @ [(field ''text'' payload, field ''messageId'' payload)]
          \<or> message_calls (gw_effects (handleEvent event payload s))
            = message_calls (gw_effects s)
              @ [(field ''text'' payload, field ''messageId'' payload),
                 (field ''text'' payload, field ''messageId'' payload)])
       \<and> (\<not> truthy_json (field ''text'' payload) \<longrightarrow>
          message_calls (gw_effects (handleEvent event payload s))
            = message_calls (gw_effects s)
          \<or> message_calls (gw_effects (handleEvent event payload s))
            = message_calls (gw_effects s)
              @ [(field ''text'' payload, field ''messageId'' payload)])
       \<and> handleEvent event payload s
           = s\<lparr>gw_effects := gw_effects (handleEvent event payload s)\<rparr>)
   \<and> (event = str ''chat'' \<and> field ''role'' payload \<noteq> JString (str ''assistant'') \<longrightarrow>
       handleEvent event payload s = s)
   \<and> (event \<noteq> str ''chat'' \<and> event \<noteq> str ''chat.reply'' \<longrightarrow>
       message_calls (gw_effects (handleEvent event payload s)) = message_calls (gw_effects s))
   \<and> (event \<noteq> str ''chat'' \<and> event \<noteq> str ''chat.reply'' \<and> event \<noteq> str ''connect.challenge''
        \<longrightarrow> handleEvent event payload s = s)"
  using assms
  by (auto simp add: handleEvent_def callOnMessage_def gw_call_def doConnect_message_calls)

theorem handleEvent_message_calls_witness:
  "onMessageHandler g_connected
   \<and> message_calls (gw_effects g_connected) = []
   \<and> message_calls (gw_effects (handleEvent (str ''chat.reply'') user_reply_payload g_connected))
       = [(JString (str ''hello''), JUndefined)]
   \<and> message_calls (gw_effects (handleEvent (str ''chat'') user_reply_payload g_connected)) = []
   \<and> handleEvent (str ''chat.stream'') chat_message_payload g_connected = g_connected
   \<and> handleEvent (str ''presence'') chat_message_payload g_connected = g_connected
   \<and> field ''type'' user_message_payload = JString (str ''message'')
   \<and> message_calls (gw_effects (handleEvent (str ''chat'') user_message_payload g_connected)) = []
   \<and> handleEvent (str ''chat'') user_message_payload g_connected = g_connected
   \<and> (message_calls (gw_effects (handleEvent (str ''chat'') chat_message_payload g_connected))
        = [(JString (str ''hi there''), JUndefined)]
      \<or> message_calls (gw_effects (handleEvent (str ''chat'') chat_message_payload g_connected))
        = [(JString (str ''hi there''), JUndefined), (JString (str ''hi there''), JUndefined)])"
proof -
  have a: "onMessageHandler g_connected" "message_calls (gw_effects g_connected) = []"
    by (simp_all add: g_connected_eq g_open_eq)
  have b: "field ''text'' user_reply_payload = JString (str ''hello'')"
    "field ''messageId'' user_reply_payload = JUndefined"
    "field ''role'' user_reply_payload = JString (str ''user'')"
    "field ''type'' user_reply_payload = JUndefined"
    by (simp_all add: user_reply_payload_def)
  have c: "field ''text'' user_message_payload = JString (str ''hello'')"
    "field ''messageId'' user_message_payload = JUndefined"
    "field ''role'' user_message_payload = JString (str ''user'')"
    "field ''type'' user_message_payload = JString (str ''message'')"
    by (simp_all add: user_message_payload_def)
  have d: "field ''text'' chat_message_payload = JString (str ''hi there'')"
    "field ''messageId'' chat_message_payload = JUndefined"
    "field ''role'' chat_message_payload = JString (str ''assistant'')"
    "field ''type'' chat_message_payload = JString (str ''message'')"
    "truthy_json (JString (str ''hi there''))"
    by (simp_all add: chat_message_payload_def)
  note r = handleEvent_message_calls [OF a(1)]
  have 1: "message_calls (gw_effects (handleEvent (str ''chat.reply'') user_reply_payload g_connected))
       = [(JString (str ''hello''), JUndefined)]"
    using r [of "str ''chat.reply''" user_reply_payload] a b by simp
  have 2: "message_calls (gw_effects (handleEvent (str ''chat'') user_reply_payload g_connected)) = []"
    using r [of "str ''chat''" user_reply_payload] a b by simp
  have 3: "handleEvent (str ''chat.stream'') chat_message_payload g_connected = g_connected"
    using r [of "str ''chat.stream''" chat_message_payload] by simp
  have 4: "handleEvent (str ''presence'') chat_message_payload g_connected = g_connected"
    using r [of "str ''presence''" chat_message_payload] by simp
  have 5: "message_calls (gw_effects (handleEvent (str ''chat'') user_message_payload g_connected)) = []
      \<and> handleEvent (str ''chat'') user_message_payload g_connected = g_connected"
    using r [of "str ''chat''" user_message_payload] a c by simp
  have 6: "message_calls (gw_effects (handleEvent (str ''chat'') chat_message_payload g_connected))
        = [(JString (str ''hi there''), JUndefined)]
      \<or> message_calls (gw_effects (handleEvent (str ''chat'') chat_message_payload g_connected))
        = [(JString (str ''hi there''), JUndefined), (JString (str ''hi there''), JUndefined)]"
    using r [of "str ''chat''" chat_message_payload] a d by simp
  from a c(4) 1 2 3 4 5 6 show ?thesis by simp
qed

text \<open>
  C7 as stated fails: a \<open>chat\<close> event that carries a complete assistant message (type
  \<open>message\<close>, role \<open>assistant\<close>, a text) calls the handler twice, one whose text is empty
  calls it once, with the empty text, and a \<open>chat.reply\<close> event whose role is \<open>user\<close>
  calls it once.
\<close>

theorem handleEvent_calls_handler_twice:
  "message_calls (gw_effects g_connected) = []
   \<and> message_calls (gw_effects (handleEvent (str ''chat'') chat_message_payload g_connected))
       = [(JString (str ''hi there''), JUndefined), (JString (str ''hi there''), JUndefined)]
   \<and> message_calls (gw_effects (handleEvent (str ''chat.reply'') user_reply_payload g_connected))
       = [(JString (str ''hello''), JUndefined)]
   \<and> message_calls (gw_effects (handleEvent (str ''chat'') empty_message_payload g_connected))
       = [(JString [], JUndefined)]"
  by (simp add: g_connected_eq g_open_eq handleEvent_def callOnMessage_def gw_call_def
      chat_message_payload_def user_reply_payload_def empty_message_payload_def)

end
